theory Spec2Isabelle
  imports Main "HOL-Library.Word"
begin

section \<open>Data model of package health\<close>

text \<open>
  \<^verbatim>\<open>type Level uint32\<close> with the two named constants \<^verbatim>\<open>LevelSoft = 0\<close> and
  \<^verbatim>\<open>LevelHard = 1\<close>. The type is the whole of uint32, not an enumeration.
\<close>

type_synonym Level = "32 word"

definition LevelSoft :: Level where
  "LevelSoft = 0"

definition LevelHard :: Level where
  "LevelHard = 1"

text \<open>
  \<^verbatim>\<open>time.Duration\<close> is a 64-bit count of nanoseconds (read as signed by \<open>sint\<close>).
  The package only stores it.
\<close>

type_synonym Duration = "64 word"

text \<open>
  The wire format. \<^verbatim>\<open>encoding/json\<close> belongs to the Go standard library; the package only
  hands it a struct to encode or a struct to fill. The model stops at the JSON document:
  what the encoder writes and what the decoder reads is a value of \<open>json\<close>, and the text
  of a number is kept as it is written, since the decoder parses it per target type.
\<close>

datatype json =
    JNull
  | JBool bool
  | JNumber string
  | JString string
  | JArray "json list"
  | JObject "(string \<times> json) list"

text \<open>
  What \<^verbatim>\<open>encoding/json\<close> sees of the two structs: their exported fields. A struct filled
  by the decoder has these fields and nothing else (its \<^verbatim>\<open>check\<close> is nil, its \<^verbatim>\<open>duration\<close>
  zero). The slice holds pointers, and a JSON \<^verbatim>\<open>null\<close> in the array leaves a nil pointer,
  hence the \<open>option\<close>.
\<close>

record Dependency_exported =
  Name :: string
  Healthy :: bool
  Level :: Level

record ServiceCheck_exported =
  Name :: string
  Healthy :: bool
  Dependencies :: "Dependency_exported option list"

text \<open>
  A probe is a Go closure \<^verbatim>\<open>func() bool\<close>. Its answer may depend on the outside world
  and calling it may change that world, so it is a transformer of a world state \<open>'w\<close>
  that also yields the boolean. Every function below that may call a probe takes the
  world and returns the world it leaves behind: the number and order of the calls made
  can be read off the world. Go's nil func value is not a value of this type.
\<close>

type_synonym 'w probe = "'w \<Rightarrow> bool \<times> 'w"

record 'w Dependency =
  Name :: string
  Healthy :: bool
  Level :: Level
  check :: "'w probe"

text \<open>
  The mutex field \<^verbatim>\<open>mu\<close> has no sequential content and is left out; the model is the
  sequential behaviour of each method taken as one atomic step.
\<close>

record 'w ServiceCheck =
  Name :: string
  Healthy :: bool
  Dependencies :: "'w Dependency list"
  duration :: Duration

text \<open>
  The package's three error values, and the errors that the standard library hands back
  (\<^verbatim>\<open>net/url\<close>, \<^verbatim>\<open>net/http\<close>, \<^verbatim>\<open>encoding/json\<close>), which the package passes on as they
  are.
\<close>

datatype error =
    ErrNoServiceNameSupplied
  | ErrDependencyAlreadyRegistered
  | ErrNoDependency
  | SyntaxError
  | UnmarshalTypeError
  | External string

section \<open>Construction\<close>

text \<open>
  \<^verbatim>\<open>InitialiseServiceCheck\<close> of \<^verbatim>\<open>health.go\<close>. The struct literal names only \<^verbatim>\<open>Name\<close>
  and \<^verbatim>\<open>duration\<close>; Go gives the fields it does not name their zero value, so \<^verbatim>\<open>Healthy\<close>
  starts as false and \<^verbatim>\<open>Dependencies\<close> as the nil slice.
\<close>

definition InitialiseServiceCheck :: "string \<Rightarrow> Duration \<Rightarrow> error + 'w ServiceCheck" where
  "InitialiseServiceCheck name dur =
     (if name = [] then Inl ErrNoServiceNameSupplied
      else Inr \<lparr>Name = name, Healthy = False, Dependencies = [], duration = dur\<rparr>)"

text \<open>
  The same function in the other variant of the file kept in the repository (the one whose
  \<^verbatim>\<open>Check200Helper\<close> takes an optional client): here the literal also names
  \<^verbatim>\<open>Healthy: true\<close>.
\<close>

definition InitialiseServiceCheck_variant :: "string \<Rightarrow> Duration \<Rightarrow> error + 'w ServiceCheck" where
  "InitialiseServiceCheck_variant name dur =
     (if name = [] then Inl ErrNoServiceNameSupplied
      else Inr \<lparr>Name = name, Healthy = True, Dependencies = [], duration = dur\<rparr>)"

section \<open>Registry\<close>

text \<open>
  \<^verbatim>\<open>RegisterDependency\<close>: the empty name is refused first, then the slice is scanned for the
  name, and only then is the probe called (once, inside the struct literal) and the new
  record appended. The result is the returned error (\<open>None\<close> for nil), the service check
  and the world.
\<close>

definition RegisterDependency ::
  "'w ServiceCheck \<Rightarrow> string \<Rightarrow> Level \<Rightarrow> 'w probe \<Rightarrow> 'w \<Rightarrow> error option \<times> 'w ServiceCheck \<times> 'w" where
  "RegisterDependency s name level chk w =
     (if name = [] then (Some ErrNoDependency, s, w)
      else if list_ex (\<lambda>dependency. Dependency.Name dependency = name) (Dependencies s)
        then (Some ErrDependencyAlreadyRegistered, s, w)
      else
        (let (h, w') = chk w;
             dep = \<lparr>Dependency.Name = name, Healthy = h, Level = level, check = chk\<rparr>
         in (None, s\<lparr>Dependencies := Dependencies s @ [dep]\<rparr>, w')))"

text \<open>
  \<^verbatim>\<open>Dependency\<close>, the lookup by name: the first record with the name, or
  \<^verbatim>\<open>ErrNoDependency\<close>.
\<close>

definition Dependency_lookup :: "'w ServiceCheck \<Rightarrow> string \<Rightarrow> error + 'w Dependency" where
  "Dependency_lookup s name =
     (case find (\<lambda>dependency. Dependency.Name dependency = name) (Dependencies s) of
        Some dependency \<Rightarrow> Inr dependency
      | None \<Rightarrow> Inl ErrNoDependency)"

definition getHealth :: "'w ServiceCheck \<Rightarrow> bool" where
  "getHealth s = Healthy s"

definition IsHealthy :: "'w ServiceCheck \<Rightarrow> bool" where
  "IsHealthy s = getHealth s"

section \<open>Aggregator\<close>

text \<open>
  The \<^verbatim>\<open>range\<close> loop of \<^verbatim>\<open>updateStatus\<close>. Each round calls the record's probe, stores
  the answer in the record, and returns from the function at once when the record is now
  unhealthy and its level equals \<^verbatim>\<open>LevelHard\<close>. The loop yields the records as they
  stand, the world, and whether it left through that \<^verbatim>\<open>return\<close>.
\<close>

fun updateStatus_loop :: "'w Dependency list \<Rightarrow> 'w \<Rightarrow> 'w Dependency list \<times> 'w \<times> bool" where
  "updateStatus_loop [] w = ([], w, False)"
| "updateStatus_loop (dependency # rest) w =
     (let (h, w') = check dependency w;
          dependency' = dependency\<lparr>Dependency.Healthy := h\<rparr>
      in if \<not> Dependency.Healthy dependency' \<and> Level dependency' = LevelHard
         then (dependency' # rest, w', True)
         else (let (rest', w'', returned) = updateStatus_loop rest w'
               in (dependency' # rest', w'', returned)))"

definition updateStatus :: "'w ServiceCheck \<Rightarrow> 'w \<Rightarrow> 'w ServiceCheck \<times> 'w" where
  "updateStatus s w =
     (let (deps, w', returned) = updateStatus_loop (Dependencies s) w
      in if returned then (s\<lparr>Dependencies := deps, Healthy := False\<rparr>, w')
         else (s\<lparr>Dependencies := deps, Healthy := True\<rparr>, w'))"

section \<open>Status reporter\<close>

text \<open>
  \<^verbatim>\<open>strconv\<close>'s decimal text of an unsigned integer, which the encoder writes for a
  \<^verbatim>\<open>uint32\<close>.
\<close>

function FormatUint :: "nat \<Rightarrow> string" where
  "FormatUint n =
     (if n < 10 then [char_of (48 + n)]
      else FormatUint (n div 10) @ [char_of (48 + n mod 10)])"
  by pat_completeness auto
termination
  by (relation "measure id") auto

declare FormatUint.simps [simp del]

text \<open>
  A Go string is any sequence of bytes. The encoder writes it as a JSON string after
  replacing every byte that does not begin a well-formed UTF-8 sequence by U+FFFD (the
  bytes EF BF BD); well-formed sequences are kept (some as escapes, which denote the same
  text). \<open>utf8_size a s\<close> is the length of the well-formed sequence that begins with the
  byte \<open>a\<close> and goes on in \<open>s\<close>, after the ranges of \<^verbatim>\<open>unicode/utf8\<close>, and 0 when there
  is none.
\<close>

definition byte_in :: "nat \<Rightarrow> nat \<Rightarrow> char \<Rightarrow> bool" where
  "byte_in lo hi c = (lo \<le> (of_char c :: nat) \<and> (of_char c :: nat) \<le> hi)"

definition utf8_size :: "char \<Rightarrow> string \<Rightarrow> nat" where
  "utf8_size a s =
     (let n = (of_char a :: nat)
      in if 0xC2 \<le> n \<and> n \<le> 0xDF then
           (case s of b # _ \<Rightarrow> if byte_in 0x80 0xBF b then 2 else 0 | _ \<Rightarrow> 0)
         else if 0xE0 \<le> n \<and> n \<le> 0xEF then
           (case s of
              b # c # _ \<Rightarrow>
                if byte_in (if n = 0xE0 then 0xA0 else 0x80) (if n = 0xED then 0x9F else 0xBF) b
                   \<and> byte_in 0x80 0xBF c
                then 3 else 0
            | _ \<Rightarrow> 0)
         else if 0xF0 \<le> n \<and> n \<le> 0xF4 then
           (case s of
              b # c # d # _ \<Rightarrow>
                if byte_in (if n = 0xF0 then 0x90 else 0x80) (if n = 0xF4 then 0x8F else 0xBF) b
                   \<and> byte_in 0x80 0xBF c \<and> byte_in 0x80 0xBF d
                then 4 else 0
            | _ \<Rightarrow> 0)
         else 0)"

function coerce_utf8 :: "string \<Rightarrow> string" where
  "coerce_utf8 [] = []"
| "coerce_utf8 (a # s) =
     (if (of_char a :: nat) < 0x80 then a # coerce_utf8 s
      else if utf8_size a s = 0 then [CHR 0xEF, CHR 0xBF, CHR 0xBD] @ coerce_utf8 s
      else a # take (utf8_size a s - 1) s @ coerce_utf8 (drop (utf8_size a s - 1) s))"
  by pat_completeness auto
termination
  by (relation "measure length") auto

text \<open>
  The encoder on the two structs: an object with one member per exported field, under the
  name of its \<^verbatim>\<open>json\<close> tag and in the order of declaration. A nil slice is written as
  \<^verbatim>\<open>null\<close>; the model's empty list is the nil slice \<^verbatim>\<open>InitialiseServiceCheck\<close> leaves,
  since \<^verbatim>\<open>append\<close> never gives an empty one.
\<close>

definition Encode_Dependency :: "'w Dependency \<Rightarrow> json" where
  "Encode_Dependency d =
     JObject [(''name'', JString (coerce_utf8 (Dependency.Name d))),
              (''healthy'', JBool (Dependency.Healthy d)),
              (''level'', JNumber (FormatUint (unat (Level d))))]"

definition Encode_ServiceCheck :: "'w ServiceCheck \<Rightarrow> json" where
  "Encode_ServiceCheck s =
     JObject [(''name'', JString (coerce_utf8 (Name s))),
              (''healthy'', JBool (Healthy s)),
              (''dependencies'',
                 (case Dependencies s of
                    [] \<Rightarrow> JNull
                  | _ # _ \<Rightarrow> JArray (map Encode_Dependency (Dependencies s))))]"

text \<open>
  \<^verbatim>\<open>WriteStatus\<close> encodes the service check to the writer it is given and returns the
  writer's error. An \<^verbatim>\<open>io.Writer\<close> is its \<^verbatim>\<open>Write\<close> method, acting on the writer's state
  \<open>'r\<close>.
\<close>

type_synonym 'r Writer = "json \<Rightarrow> 'r \<Rightarrow> error option \<times> 'r"

definition WriteStatus :: "'w ServiceCheck \<Rightarrow> 'r Writer \<Rightarrow> 'r \<Rightarrow> error option \<times> 'r" where
  "WriteStatus s write r = write (Encode_ServiceCheck s) r"

text \<open>
  An \<^verbatim>\<open>http.ResponseWriter\<close> has \<^verbatim>\<open>WriteHeader\<close> besides \<^verbatim>\<open>Write\<close>. The handler reads the
  aggregate, writes the status code, then calls \<^verbatim>\<open>WriteStatus\<close> and drops its error. The
  request is not looked at.
\<close>

record 'r ResponseWriter =
  WriteHeader :: "int \<Rightarrow> 'r \<Rightarrow> 'r"
  Write :: "'r Writer"

definition HTTPHandler :: "'w ServiceCheck \<Rightarrow> 'r ResponseWriter \<Rightarrow> 'r \<Rightarrow> 'r" where
  "HTTPHandler s rw r =
     (let r' = (if getHealth s then WriteHeader rw 200 r else WriteHeader rw 503 r)
      in snd (WriteStatus s (Write rw) r'))"

text \<open>
  A response writer that keeps the calls it receives, oldest first.
\<close>

datatype response_call = HeaderWritten int | BodyWritten json

definition recorder :: "response_call list ResponseWriter" where
  "recorder = \<lparr>WriteHeader = (\<lambda>code r. r @ [HeaderWritten code]),
               Write = (\<lambda>doc r. (None, r @ [BodyWritten doc]))\<rparr>"

section \<open>Decoding a snapshot\<close>

text \<open>
  \<^verbatim>\<open>strconv.ParseUint(s, 10, 32)\<close>, by which the decoder reads a number into a
  \<^verbatim>\<open>uint32\<close>: decimal digits only, at least one, and a value below \<open>2 ^ 32\<close>.
\<close>

definition is_digit :: "char \<Rightarrow> bool" where
  "is_digit c = (48 \<le> (of_char c :: nat) \<and> (of_char c :: nat) \<le> 57)"

definition ParseUint32 :: "string \<Rightarrow> Level option" where
  "ParseUint32 s =
     (if s = [] \<or> \<not> list_all is_digit s then None
      else (let n = foldl (\<lambda>n c. n * 10 + (of_char c - 48)) (0::nat) s
            in if n < 2 ^ 32 then Some (of_nat n) else None))"

text \<open>
  The decoder finds the field for an object key by the exact tag, and failing that by the
  tag under case folding: ASCII letters without regard to case, and the two characters
  outside ASCII that fold to an ASCII letter, U+212A (Kelvin sign, to \<^verbatim>\<open>k\<close>) and U+017F
  (long s, to \<^verbatim>\<open>s\<close>), here in UTF-8. The tags are lower-case ASCII, so both tests come to
  comparing the folded key with the tag.
\<close>

definition lower :: "char \<Rightarrow> char" where
  "lower c = (let n = (of_char c :: nat) in if 65 \<le> n \<and> n \<le> 90 then char_of (n + 32) else c)"

fun foldName :: "string \<Rightarrow> string" where
  "foldName (a # b # c # cs) =
     (if a = CHR 0xE2 \<and> b = CHR 0x84 \<and> c = CHR 0xAA then CHR ''k'' # foldName cs
      else if a = CHR 0xC5 \<and> b = CHR 0xBF then CHR ''s'' # foldName (c # cs)
      else lower a # foldName (b # c # cs))"
| "foldName [a, b] =
     (if a = CHR 0xC5 \<and> b = CHR 0xBF then [CHR ''s''] else lower a # foldName [b])"
| "foldName [a] = [lower a]"
| "foldName [] = []"

text \<open>
  Decoding one JSON value into a field of a given Go type. \<^verbatim>\<open>null\<close> leaves a bool, a
  string or a number as it is. A value of the wrong kind leaves the field as it is and is
  an \<^verbatim>\<open>UnmarshalTypeError\<close>; the decoder keeps the first such error, goes on, and returns
  it at the end.
\<close>

definition first_error :: "error option \<Rightarrow> error option \<Rightarrow> error option" where
  "first_error e e' = (case e of None \<Rightarrow> e' | Some _ \<Rightarrow> e)"

definition decode_string :: "json \<Rightarrow> string \<Rightarrow> error option \<times> string" where
  "decode_string j cur =
     (case j of JString v \<Rightarrow> (None, v) | JNull \<Rightarrow> (None, cur) | _ \<Rightarrow> (Some UnmarshalTypeError, cur))"

definition decode_bool :: "json \<Rightarrow> bool \<Rightarrow> error option \<times> bool" where
  "decode_bool j cur =
     (case j of JBool v \<Rightarrow> (None, v) | JNull \<Rightarrow> (None, cur) | _ \<Rightarrow> (Some UnmarshalTypeError, cur))"

definition decode_uint32 :: "json \<Rightarrow> Level \<Rightarrow> error option \<times> Level" where
  "decode_uint32 j cur =
     (case j of
        JNumber lit \<Rightarrow>
          (case ParseUint32 lit of Some v \<Rightarrow> (None, v) | None \<Rightarrow> (Some UnmarshalTypeError, cur))
      | JNull \<Rightarrow> (None, cur)
      | _ \<Rightarrow> (Some UnmarshalTypeError, cur))"

definition Dependency_zero :: Dependency_exported where
  "Dependency_zero = \<lparr>Dependency_exported.Name = [], Healthy = False, Level = 0\<rparr>"

definition ServiceCheck_zero :: ServiceCheck_exported where
  "ServiceCheck_zero = \<lparr>ServiceCheck_exported.Name = [], Healthy = False, Dependencies = []\<rparr>"

text \<open>
  One member of an object decoded into a \<^verbatim>\<open>Dependency\<close>: a key that matches no field is
  skipped; members are taken in order, so a repeated key overwrites.
\<close>

definition decode_Dependency_member ::
  "error option \<times> Dependency_exported \<Rightarrow> string \<times> json \<Rightarrow> error option \<times> Dependency_exported" where
  "decode_Dependency_member acc member =
     (let (e, d) = acc; (key, j) = member; f = foldName key
      in if f = ''name'' then
           (let (e', v) = decode_string j (Dependency_exported.Name d)
            in (first_error e e', d\<lparr>Dependency_exported.Name := v\<rparr>))
         else if f = ''healthy'' then
           (let (e', v) = decode_bool j (Dependency_exported.Healthy d)
            in (first_error e e', d\<lparr>Dependency_exported.Healthy := v\<rparr>))
         else if f = ''level'' then
           (let (e', v) = decode_uint32 j (Dependency_exported.Level d)
            in (first_error e e', d\<lparr>Dependency_exported.Level := v\<rparr>))
         else (e, d))"

text \<open>
  An element of the array, decoded into a fresh \<^verbatim>\<open>*Dependency\<close>: \<^verbatim>\<open>null\<close> gives the nil
  pointer, an object a new struct filled member by member, anything else a new zero
  struct and a type error.
\<close>

definition decode_Dependency :: "json \<Rightarrow> error option \<times> Dependency_exported option" where
  "decode_Dependency j =
     (case j of
        JNull \<Rightarrow> (None, None)
      | JObject members \<Rightarrow>
          (let (e, d) = foldl decode_Dependency_member (None, Dependency_zero) members
           in (e, Some d))
      | _ \<Rightarrow> (Some UnmarshalTypeError, Some Dependency_zero))"

definition decode_Dependencies ::
  "json \<Rightarrow> Dependency_exported option list \<Rightarrow> error option \<times> Dependency_exported option list" where
  "decode_Dependencies j cur =
     (case j of
        JNull \<Rightarrow> (None, [])
      | JArray elements \<Rightarrow>
          (let decoded = map decode_Dependency elements
           in (foldl first_error None (map fst decoded), map snd decoded))
      | _ \<Rightarrow> (Some UnmarshalTypeError, cur))"

definition decode_ServiceCheck_member ::
  "error option \<times> ServiceCheck_exported \<Rightarrow> string \<times> json \<Rightarrow> error option \<times> ServiceCheck_exported" where
  "decode_ServiceCheck_member acc member =
     (let (e, s) = acc; (key, j) = member; f = foldName key
      in if f = ''name'' then
           (let (e', v) = decode_string j (ServiceCheck_exported.Name s)
            in (first_error e e', s\<lparr>ServiceCheck_exported.Name := v\<rparr>))
         else if f = ''healthy'' then
           (let (e', v) = decode_bool j (ServiceCheck_exported.Healthy s)
            in (first_error e e', s\<lparr>ServiceCheck_exported.Healthy := v\<rparr>))
         else if f = ''dependencies'' then
           (let (e', v) = decode_Dependencies j (ServiceCheck_exported.Dependencies s)
            in (first_error e e', s\<lparr>ServiceCheck_exported.Dependencies := v\<rparr>))
         else (e, s))"

definition decode_ServiceCheck ::
  "json \<Rightarrow> ServiceCheck_exported \<Rightarrow> error option \<times> ServiceCheck_exported" where
  "decode_ServiceCheck j cur =
     (case j of
        JNull \<Rightarrow> (None, cur)
      | JObject members \<Rightarrow> foldl decode_ServiceCheck_member (None, cur) members
      | _ \<Rightarrow> (Some UnmarshalTypeError, cur))"

text \<open>
  \<^verbatim>\<open>json.NewDecoder(body).Decode(&response)\<close>. The body is the first JSON document of the
  stream, or \<open>None\<close> when the bytes do not begin with one (an empty body, a syntax error).
\<close>

definition Decode :: "json option \<Rightarrow> ServiceCheck_exported \<Rightarrow> error option \<times> ServiceCheck_exported" where
  "Decode body cur =
     (case body of None \<Rightarrow> (Some SyntaxError, cur) | Some j \<Rightarrow> decode_ServiceCheck j cur)"

section \<open>Remote health check helpers\<close>

text \<open>
  The calls into \<^verbatim>\<open>net/url\<close> and \<^verbatim>\<open>net/http\<close> that the helpers make, as what they return
  in the situation at hand: \<open>'u\<close> stands for \<^verbatim>\<open>*url.URL\<close>, \<open>'q\<close> for \<^verbatim>\<open>*http.Request\<close>, and
  \<^verbatim>\<open>Do\<close> is \<^verbatim>\<open>HTTPClient.Do\<close>. Each helper makes each call at most once.
\<close>

record Response =
  StatusCode :: int
  Body :: "json option"

record ('u, 'q) net =
  ParseRequestURI :: "string \<Rightarrow> error + 'u"
  URL_String :: "'u \<Rightarrow> string"
  NewRequest :: "string \<Rightarrow> string \<Rightarrow> error + 'q"
  Do :: "'q \<Rightarrow> error + Response"

definition StatusOK :: int where
  "StatusOK = 200"

definition Check200Helper :: "('u, 'q) net \<Rightarrow> string \<Rightarrow> bool \<times> error option" where
  "Check200Helper n rawURL =
     (case ParseRequestURI n rawURL of
        Inl err \<Rightarrow> (False, Some err)
      | Inr u \<Rightarrow>
          (case NewRequest n ''GET'' (URL_String n u) of
             Inl err \<Rightarrow> (False, Some err)
           | Inr req \<Rightarrow>
               (case Do n req of
                  Inl err \<Rightarrow> (False, Some err)
                | Inr resp \<Rightarrow>
                    if StatusCode resp \<noteq> StatusOK then (False, None)
                    else (True, None))))"

definition Get :: "('u, 'q) net \<Rightarrow> string \<Rightarrow> bool \<times> error option" where
  "Get n url =
     (case NewRequest n ''GET'' url of
        Inl err \<Rightarrow> (False, Some err)
      | Inr r \<Rightarrow>
          (case Do n r of
             Inl err \<Rightarrow> (False, Some err)
           | Inr resp \<Rightarrow>
               if StatusCode resp \<noteq> StatusOK then (False, None)
               else (case Decode (Body resp) ServiceCheck_zero of
                       (Some err, response) \<Rightarrow> (False, Some err)
                     | (None, response) \<Rightarrow> (ServiceCheck_exported.Healthy response, None))))"

section \<open>Concrete probes and service checks\<close>

text \<open>
  A world that is the list of the probes called so far, oldest first: \<open>probe_log i b\<close> is
  the probe that answers \<open>b\<close> and leaves its number \<open>i\<close> in the world.
\<close>

definition probe_log :: "nat \<Rightarrow> bool \<Rightarrow> nat list probe" where
  "probe_log i b w = (b, w @ [i])"

definition dep_soft_down :: "nat list Dependency" where
  "dep_soft_down = \<lparr>Dependency.Name = ''search'', Healthy = True, Level = LevelSoft,
                     check = probe_log 0 False\<rparr>"

definition dep_hard_down :: "nat list Dependency" where
  "dep_hard_down = \<lparr>Dependency.Name = ''redis'', Healthy = True, Level = LevelHard,
                     check = probe_log 1 False\<rparr>"

definition dep_hard_up :: "nat list Dependency" where
  "dep_hard_up = \<lparr>Dependency.Name = ''google'', Healthy = False, Level = LevelHard,
                   check = probe_log 2 True\<rparr>"

definition dep_after :: "nat list Dependency" where
  "dep_after = \<lparr>Dependency.Name = ''queue'', Healthy = True, Level = LevelHard,
                 check = probe_log 3 False\<rparr>"

definition dep_level2_down :: "nat list Dependency" where
  "dep_level2_down = \<lparr>Dependency.Name = ''mail'', Healthy = True, Level = 2,
                       check = probe_log 4 False\<rparr>"

definition check_with :: "nat list Dependency list \<Rightarrow> nat list ServiceCheck" where
  "check_with deps = \<lparr>Name = ''test'', Healthy = True, Dependencies = deps, duration = 50000000\<rparr>"

text \<open>
  A network for the examples: requests are the method and the URL text, the empty URL
  does not parse, the host \<^verbatim>\<open>down\<close> refuses the connection, and every other request is
  answered with \<open>resp\<close>.
\<close>

definition net_serving :: "Response \<Rightarrow> (string, string \<times> string) net" where
  "net_serving resp =
     \<lparr>ParseRequestURI = (\<lambda>raw. if raw = [] then Inl (External ''empty url'') else Inr raw),
      URL_String = (\<lambda>u. u),
      NewRequest = (\<lambda>method u. if u = [] then Inl (External ''empty url'') else Inr (method, u)),
      Do = (\<lambda>req. if snd req = ''http://down/'' then Inl (External ''connection refused'')
                    else Inr resp)\<rparr>"

section \<open>Properties of the aggregator\<close>

lemma loop_Cons:
  "check d w = (h, wa) \<Longrightarrow>
   updateStatus_loop (d # ds) w =
     (if \<not> h \<and> Level d = LevelHard then (d\<lparr>Dependency.Healthy := h\<rparr> # ds, wa, True)
      else (case updateStatus_loop ds wa of
              (ds', w'', r) \<Rightarrow> (d\<lparr>Dependency.Healthy := h\<rparr> # ds', w'', r)))"
  by (simp add: Let_def)

lemma loop_append:
  "updateStatus_loop pre w = (pre', w1, False) \<Longrightarrow>
   updateStatus_loop (pre @ rest) w =
     (let (rest', w2, r) = updateStatus_loop rest w1 in (pre' @ rest', w2, r))"
proof (induction pre arbitrary: w pre')
  case Nil
  then show ?case by simp
next
  case (Cons d pre)
  obtain h wa where c: "check d w = (h, wa)" by (cases "check d w")
  obtain ds wb r where l: "updateStatus_loop pre wa = (ds, wb, r)"
    by (cases "updateStatus_loop pre wa")
  from Cons.prems c l have nr: "\<not> (\<not> h \<and> Level d = LevelHard)" and r: "r = False"
    and p: "pre' = d\<lparr>Dependency.Healthy := h\<rparr> # ds" and w: "w1 = wb"
    by (auto simp: Let_def split: if_splits)
  from Cons.IH[of wa ds] l r w have
    "updateStatus_loop (pre @ rest) wa =
       (let (rest', w2, r) = updateStatus_loop rest w1 in (ds @ rest', w2, r))" by simp
  with c nr p show ?case by (auto simp: Let_def split: prod.splits)
qed

lemma loop_returned:
  "updateStatus_loop ds w = (ds', w', True) \<Longrightarrow>
   \<exists>pre d post pre' w1. ds = pre @ d # post \<and> updateStatus_loop pre w = (pre', w1, False)
      \<and> Level d = LevelHard \<and> check d w1 = (False, w')
      \<and> ds' = pre' @ d\<lparr>Dependency.Healthy := False\<rparr> # post"
proof (induction ds arbitrary: w ds')
  case Nil
  then show ?case by simp
next
  case (Cons d ds)
  obtain h wa where c: "check d w = (h, wa)" by (cases "check d w")
  show ?case
  proof (cases "\<not> h \<and> Level d = LevelHard")
    case True
    with Cons.prems c have "ds' = d\<lparr>Dependency.Healthy := False\<rparr> # ds" "w' = wa" by (auto simp: Let_def)
    with True c have "d # ds = [] @ d # ds \<and> updateStatus_loop [] w = ([], w, False)
      \<and> Level d = LevelHard \<and> check d w = (False, w')
      \<and> ds' = [] @ d\<lparr>Dependency.Healthy := False\<rparr> # ds" by simp
    then show ?thesis by blast
  next
    case False
    obtain es wb r where l: "updateStatus_loop ds wa = (es, wb, r)"
      by (cases "updateStatus_loop ds wa")
    from Cons.prems c False l have r: "r = True" and e: "ds' = d\<lparr>Dependency.Healthy := h\<rparr> # es"
      and w: "wb = w'" by (auto simp: Let_def split: if_splits)
    from Cons.IH[of wa es] l r w obtain pre x post pre' w1 where
      d: "ds = pre @ x # post" and p: "updateStatus_loop pre wa = (pre', w1, False)"
      and lv: "Level x = LevelHard" and cx: "check x w1 = (False, w')"
      and es: "es = pre' @ x\<lparr>Dependency.Healthy := False\<rparr> # post" by blast
    from c False p have "updateStatus_loop (d # pre) w = (d\<lparr>Dependency.Healthy := h\<rparr> # pre', w1, False)"
      by (auto simp: Let_def)
    with d lv cx es e have "d # ds = (d # pre) @ x # post
      \<and> updateStatus_loop (d # pre) w = (d\<lparr>Dependency.Healthy := h\<rparr> # pre', w1, False)
      \<and> Level x = LevelHard \<and> check x w1 = (False, w')
      \<and> ds' = (d\<lparr>Dependency.Healthy := h\<rparr> # pre') @ x\<lparr>Dependency.Healthy := False\<rparr> # post" by simp
    then show ?thesis by blast
  qed
qed

lemma loop_stop:
  assumes "updateStatus_loop pre w = (pre', w1, False)" "check d w1 = (False, w2)" "Level d = LevelHard"
  shows "updateStatus_loop (pre @ d # post) w = (pre' @ d\<lparr>Dependency.Healthy := False\<rparr> # post, w2, True)"
  using loop_append[OF assms(1), of "d # post"] assms(2,3) by simp

lemma loop_hard_ok:
  "(\<forall>d\<in>set ds. Level d = LevelHard \<longrightarrow> (\<forall>v. fst (check d v))) \<Longrightarrow>
   \<not> snd (snd (updateStatus_loop ds w))"
proof (induction ds arbitrary: w)
  case Nil
  then show ?case by simp
next
  case (Cons d ds)
  obtain h wa where c: "check d w = (h, wa)" by (cases "check d w")
  from Cons.prems c have "\<not> (\<not> h \<and> Level d = LevelHard)" by (metis fst_conv list.set_intros(1))
  moreover from Cons have "\<not> snd (snd (updateStatus_loop ds wa))" by simp
  ultimately show ?case using c by (auto simp: Let_def split: prod.splits)
qed

lemma loop_hard_fail:
  "d \<in> set ds \<Longrightarrow> Level d = LevelHard \<Longrightarrow> (\<forall>v. \<not> fst (check d v)) \<Longrightarrow>
   snd (snd (updateStatus_loop ds w))"
proof (induction ds arbitrary: w)
  case Nil
  then show ?case by simp
next
  case (Cons x ds)
  obtain h wa where c: "check x w = (h, wa)" by (cases "check x w")
  show ?case
  proof (cases "x = d")
    case True
    with Cons.prems c have "\<not> h \<and> Level x = LevelHard" by (metis fst_conv)
    with c show ?thesis by (simp add: Let_def)
  next
    case False
    with Cons have "snd (snd (updateStatus_loop ds wa))" by simp
    with c show ?thesis by (auto simp: Let_def split: prod.splits)
  qed
qed

lemma updateStatus_Healthy:
  "Healthy (fst (updateStatus s w)) = (\<not> snd (snd (updateStatus_loop (Dependencies s) w)))"
  by (simp add: updateStatus_def split: prod.splits)

text \<open>
  C1. After one cycle of \<^verbatim>\<open>updateStatus\<close> the aggregate flag is true exactly when no
  dependency of level \<^verbatim>\<open>LevelHard\<close> answered false when the cycle called its probe: the
  cycle calls the probe of the record that follows \<open>pre\<close> when the loop over \<open>pre\<close> has not
  returned, in the world that loop leaves. In particular the aggregate is true when every
  hard dependency's probe answers true whatever the soft ones do, false when some hard
  dependency's probe answers false, and true when there is no dependency at all.
\<close>

theorem updateStatus_aggregate:
  "(Healthy (fst (updateStatus s w)) \<longleftrightarrow>
      \<not> (\<exists>pre d post. Dependencies s = pre @ d # post \<and> Level d = LevelHard
            \<and> \<not> snd (snd (updateStatus_loop pre w))
            \<and> \<not> fst (check d (fst (snd (updateStatus_loop pre w))))))
   \<and> ((\<forall>d\<in>set (Dependencies s). Level d = LevelHard \<longrightarrow> (\<forall>v. fst (check d v)))
        \<longrightarrow> Healthy (fst (updateStatus s w)))
   \<and> ((\<exists>d\<in>set (Dependencies s). Level d = LevelHard \<and> (\<forall>v. \<not> fst (check d v)))
        \<longrightarrow> \<not> Healthy (fst (updateStatus s w)))
   \<and> (Dependencies s = [] \<longrightarrow> Healthy (fst (updateStatus s w)))"
proof (intro conjI impI)
  show "Healthy (fst (updateStatus s w)) \<longleftrightarrow>
      \<not> (\<exists>pre d post. Dependencies s = pre @ d # post \<and> Level d = LevelHard
            \<and> \<not> snd (snd (updateStatus_loop pre w))
            \<and> \<not> fst (check d (fst (snd (updateStatus_loop pre w)))))"
  proof
    assume h: "Healthy (fst (updateStatus s w))"
    show "\<not> (\<exists>pre d post. Dependencies s = pre @ d # post \<and> Level d = LevelHard
            \<and> \<not> snd (snd (updateStatus_loop pre w))
            \<and> \<not> fst (check d (fst (snd (updateStatus_loop pre w)))))"
    proof
      assume "\<exists>pre d post. Dependencies s = pre @ d # post \<and> Level d = LevelHard
            \<and> \<not> snd (snd (updateStatus_loop pre w))
            \<and> \<not> fst (check d (fst (snd (updateStatus_loop pre w))))"
      then obtain pre d post where d: "Dependencies s = pre @ d # post" and lv: "Level d = LevelHard"
        and nr: "\<not> snd (snd (updateStatus_loop pre w))"
        and f: "\<not> fst (check d (fst (snd (updateStatus_loop pre w))))" by blast
      obtain pre' w1 where p: "updateStatus_loop pre w = (pre', w1, False)"
        using nr by (cases "updateStatus_loop pre w") auto
      obtain w2 where c: "check d w1 = (False, w2)"
        using f p by (cases "check d w1") auto
      from loop_stop[OF p c lv, of post] d have "snd (snd (updateStatus_loop (Dependencies s) w))"
        by simp
      with h show False by (simp add: updateStatus_Healthy)
    qed
  next
    assume n: "\<not> (\<exists>pre d post. Dependencies s = pre @ d # post \<and> Level d = LevelHard
            \<and> \<not> snd (snd (updateStatus_loop pre w))
            \<and> \<not> fst (check d (fst (snd (updateStatus_loop pre w)))))"
    show "Healthy (fst (updateStatus s w))"
    proof (rule ccontr)
      assume "\<not> Healthy (fst (updateStatus s w))"
      then have "snd (snd (updateStatus_loop (Dependencies s) w))"
        by (simp add: updateStatus_Healthy)
      then obtain ds' w' where "updateStatus_loop (Dependencies s) w = (ds', w', True)"
        by (cases "updateStatus_loop (Dependencies s) w") auto
      from loop_returned[OF this] obtain pre d post pre' w1 where
        "Dependencies s = pre @ d # post" "updateStatus_loop pre w = (pre', w1, False)"
        "Level d = LevelHard" "check d w1 = (False, w')" by blast
      then have "Dependencies s = pre @ d # post \<and> Level d = LevelHard
            \<and> \<not> snd (snd (updateStatus_loop pre w))
            \<and> \<not> fst (check d (fst (snd (updateStatus_loop pre w))))" by simp
      with n show False by blast
    qed
  qed
next
  assume "\<forall>d\<in>set (Dependencies s). Level d = LevelHard \<longrightarrow> (\<forall>v. fst (check d v))"
  then show "Healthy (fst (updateStatus s w))"
    by (simp add: updateStatus_Healthy loop_hard_ok)
next
  assume "\<exists>d\<in>set (Dependencies s). Level d = LevelHard \<and> (\<forall>v. \<not> fst (check d v))"
  then obtain d where "d \<in> set (Dependencies s)" "Level d = LevelHard" "\<forall>v. \<not> fst (check d v)"
    by blast
  then show "\<not> Healthy (fst (updateStatus s w))"
    by (simp add: updateStatus_Healthy loop_hard_fail)
next
  assume "Dependencies s = []"
  then show "Healthy (fst (updateStatus s w))"
    by (simp add: updateStatus_Healthy)
qed

text \<open>
  C2. When the cycle reaches a dependency \<open>d\<close> of level \<^verbatim>\<open>LevelHard\<close> whose probe answers
  false, and no record before it stopped the loop, the records after \<open>d\<close> come back exactly
  as they were (their \<^verbatim>\<open>Healthy\<close> fields included) and the world is the one \<open>d\<close>'s probe
  left: no later probe was called. Every cycle that ends with a false aggregate has such a
  first failing hard dependency.
\<close>

theorem updateStatus_short_circuit:
  "(Dependencies s = pre @ d # post \<and> updateStatus_loop pre w = (pre', w1, False)
      \<and> check d w1 = (False, w2) \<and> Level d = LevelHard \<longrightarrow>
      updateStatus s w =
        (s\<lparr>Dependencies := pre' @ d\<lparr>Dependency.Healthy := False\<rparr> # post, Healthy := False\<rparr>, w2))
   \<and> (\<not> Healthy (fst (updateStatus s w)) \<longrightarrow>
        (\<exists>before x after before' v1 v2.
           Dependencies s = before @ x # after \<and> updateStatus_loop before w = (before', v1, False)
           \<and> check x v1 = (False, v2) \<and> Level x = LevelHard))"
proof (intro conjI impI)
  assume a: "Dependencies s = pre @ d # post \<and> updateStatus_loop pre w = (pre', w1, False)
      \<and> check d w1 = (False, w2) \<and> Level d = LevelHard"
  then have "updateStatus_loop (pre @ d # post) w =
      (pre' @ d\<lparr>Dependency.Healthy := False\<rparr> # post, w2, True)"
    by (simp add: loop_stop)
  with a show "updateStatus s w =
        (s\<lparr>Dependencies := pre' @ d\<lparr>Dependency.Healthy := False\<rparr> # post, Healthy := False\<rparr>, w2)"
    by (simp add: updateStatus_def)
next
  assume "\<not> Healthy (fst (updateStatus s w))"
  then have "snd (snd (updateStatus_loop (Dependencies s) w))"
    by (simp add: updateStatus_Healthy)
  then obtain ds' w' where "updateStatus_loop (Dependencies s) w = (ds', w', True)"
    by (cases "updateStatus_loop (Dependencies s) w") auto
  from loop_returned[OF this]
  show "\<exists>before x after before' v1 v2.
           Dependencies s = before @ x # after \<and> updateStatus_loop before w = (before', v1, False)
           \<and> check x v1 = (False, v2) \<and> Level x = LevelHard"
    by blast
qed

subsection \<open>The cycle on concrete service checks\<close>

lemmas ex_defs = check_with_def dep_soft_down_def dep_hard_down_def dep_hard_up_def dep_after_def
  dep_level2_down_def probe_log_def LevelHard_def LevelSoft_def

theorem updateStatus_aggregate_witness:
  "Level dep_soft_down \<noteq> LevelHard \<and> (\<forall>v. \<not> fst (check dep_soft_down v))
   \<and> Level dep_hard_up = LevelHard \<and> (\<forall>v. fst (check dep_hard_up v))
   \<and> Healthy (fst (updateStatus (check_with [dep_soft_down, dep_hard_up]) []))
   \<and> Level dep_hard_down = LevelHard \<and> (\<forall>v. \<not> fst (check dep_hard_down v))
   \<and> \<not> Healthy (fst (updateStatus (check_with [dep_soft_down, dep_hard_down, dep_hard_up]) []))
   \<and> Dependencies (check_with []) = []
   \<and> Healthy (fst (updateStatus (check_with []) []))"
proof -
  have soft: "Level dep_soft_down \<noteq> LevelHard \<and> (\<forall>v. \<not> fst (check dep_soft_down v))"
    by (simp add: ex_defs)
  have up: "Level dep_hard_up = LevelHard \<and> (\<forall>v. fst (check dep_hard_up v))"
    by (simp add: ex_defs)
  have down: "Level dep_hard_down = LevelHard \<and> (\<forall>v. \<not> fst (check dep_hard_down v))"
    by (simp add: ex_defs)
  have a: "\<forall>d\<in>set (Dependencies (check_with [dep_soft_down, dep_hard_up])).
       Level d = LevelHard \<longrightarrow> (\<forall>v. fst (check d v))"
    using soft up by (simp add: check_with_def)
  have b: "\<exists>d\<in>set (Dependencies (check_with [dep_soft_down, dep_hard_down, dep_hard_up])).
       Level d = LevelHard \<and> (\<forall>v. \<not> fst (check d v))"
    using down by (simp add: check_with_def)
  have c: "Dependencies (check_with []) = []"
    by (simp add: check_with_def)
  from soft up down a b c
    updateStatus_aggregate [of "check_with [dep_soft_down, dep_hard_up]" "[]"]
    updateStatus_aggregate [of "check_with [dep_soft_down, dep_hard_down, dep_hard_up]" "[]"]
    updateStatus_aggregate [of "check_with []" "[]"]
  show ?thesis by blast
qed

theorem updateStatus_short_circuit_witness:
  "updateStatus_loop [dep_soft_down, dep_hard_up] [] =
     ([dep_soft_down\<lparr>Dependency.Healthy := False\<rparr>, dep_hard_up\<lparr>Dependency.Healthy := True\<rparr>],
      [0, 2], False)
   \<and> check dep_hard_down [0, 2] = (False, [0, 2, 1])
   \<and> Level dep_hard_down = LevelHard
   \<and> updateStatus (check_with [dep_soft_down, dep_hard_up, dep_hard_down, dep_after]) [] =
       (check_with [dep_soft_down\<lparr>Dependency.Healthy := False\<rparr>, dep_hard_up\<lparr>Dependency.Healthy := True\<rparr>,
          dep_hard_down\<lparr>Dependency.Healthy := False\<rparr>, dep_after]\<lparr>Healthy := False\<rparr>, [0, 2, 1])
   \<and> \<not> Healthy (fst (updateStatus (check_with [dep_hard_down, dep_after]) []))
   \<and> (\<exists>before x after before' v1 v2.
         Dependencies (check_with [dep_hard_down, dep_after]) = before @ x # after
         \<and> updateStatus_loop before [] = (before', v1, False)
         \<and> check x v1 = (False, v2) \<and> Level x = LevelHard)"
proof -
  have a: "Dependencies (check_with [dep_soft_down, dep_hard_up, dep_hard_down, dep_after]) =
             [dep_soft_down, dep_hard_up] @ dep_hard_down # [dep_after]"
    by (simp add: check_with_def)
  have b: "updateStatus_loop [dep_soft_down, dep_hard_up] [] =
             ([dep_soft_down\<lparr>Dependency.Healthy := False\<rparr>, dep_hard_up\<lparr>Dependency.Healthy := True\<rparr>],
              [0, 2], False)"
    by (simp add: ex_defs)
  have c: "check dep_hard_down [0, 2] = (False, [0, 2, 1])"
    by (simp add: ex_defs)
  have d: "Level dep_hard_down = LevelHard"
    by (simp add: ex_defs)
  from a b c d
    updateStatus_short_circuit [of "check_with [dep_soft_down, dep_hard_up, dep_hard_down, dep_after]"
      "[dep_soft_down, dep_hard_up]" dep_hard_down "[dep_after]" "[]"
      "[dep_soft_down\<lparr>Dependency.Healthy := False\<rparr>, dep_hard_up\<lparr>Dependency.Healthy := True\<rparr>]"
      "[0, 2]" "[0, 2, 1]"]
  have "updateStatus (check_with [dep_soft_down, dep_hard_up, dep_hard_down, dep_after]) [] =
     ((check_with [dep_soft_down, dep_hard_up, dep_hard_down, dep_after])
        \<lparr>Dependencies := [dep_soft_down\<lparr>Dependency.Healthy := False\<rparr>,
            dep_hard_up\<lparr>Dependency.Healthy := True\<rparr>]
          @ dep_hard_down\<lparr>Dependency.Healthy := False\<rparr> # [dep_after], Healthy := False\<rparr>,
      [0, 2, 1])"
    by blast
  then have e: "updateStatus (check_with [dep_soft_down, dep_hard_up, dep_hard_down, dep_after]) [] =
       (check_with [dep_soft_down\<lparr>Dependency.Healthy := False\<rparr>, dep_hard_up\<lparr>Dependency.Healthy := True\<rparr>,
          dep_hard_down\<lparr>Dependency.Healthy := False\<rparr>, dep_after]\<lparr>Healthy := False\<rparr>, [0, 2, 1])"
    by (simp add: check_with_def)
  have f: "\<not> Healthy (fst (updateStatus (check_with [dep_hard_down, dep_after]) []))"
    by (simp add: updateStatus_def ex_defs)
  from f updateStatus_short_circuit [of "check_with [dep_hard_down, dep_after]" _ _ _ "[]"]
  have g: "\<exists>before x after before' v1 v2.
         Dependencies (check_with [dep_hard_down, dep_after]) = before @ x # after
         \<and> updateStatus_loop before [] = (before', v1, False)
         \<and> check x v1 = (False, v2) \<and> Level x = LevelHard"
    by blast
  from b c d e f g show ?thesis by blast
qed

section \<open>Properties of the registry\<close>

lemma registered_iff:
  "list_ex (\<lambda>dependency. Dependency.Name dependency = name) deps
     \<longleftrightarrow> name \<in> Dependency.Name ` set deps"
  by (auto simp: list_ex_iff)

lemma RegisterDependency_empty:
  "RegisterDependency s [] level chk w = (Some ErrNoDependency, s, w)"
  by (simp add: RegisterDependency_def)

lemma RegisterDependency_duplicate:
  "name \<noteq> [] \<Longrightarrow> name \<in> Dependency.Name ` set (Dependencies s) \<Longrightarrow>
   RegisterDependency s name level chk w = (Some ErrDependencyAlreadyRegistered, s, w)"
  by (simp add: RegisterDependency_def registered_iff)

lemma RegisterDependency_fresh:
  "name \<noteq> [] \<Longrightarrow> name \<notin> Dependency.Name ` set (Dependencies s) \<Longrightarrow>
   RegisterDependency s name level chk w =
     (None,
      s\<lparr>Dependencies := Dependencies s @
          [\<lparr>Dependency.Name = name, Healthy = fst (chk w), Level = level, check = chk\<rparr>]\<rparr>,
      snd (chk w))"
  by (simp add: RegisterDependency_def registered_iff split: prod.splits)

lemma count_one_of_distinct:
  "distinct (map f xs) \<Longrightarrow> y \<in> f ` set xs \<Longrightarrow> length (filter (\<lambda>x. f x = y) xs) = 1"
proof (induction xs)
  case Nil
  then show ?case by simp
next
  case (Cons x xs)
  show ?case
  proof (cases "f x = y")
    case True
    from Cons.prems(1) have "f x \<notin> f ` set xs" by simp
    with True have "\<forall>z\<in>set xs. f z \<noteq> y" by blast
    then have "filter (\<lambda>x. f x = y) xs = []" by (simp add: filter_empty_conv)
    with True show ?thesis by simp
  next
    case False
    with Cons show ?thesis by auto
  qed
qed

lemma loop_frame:
  "list_all2 (\<lambda>d d'. \<exists>h. d' = d\<lparr>Dependency.Healthy := h\<rparr>) ds (fst (updateStatus_loop ds w))"
proof (induction ds arbitrary: w)
  case Nil
  then show ?case by simp
next
  case (Cons d ds)
  obtain h wa where c: "check d w = (h, wa)" by (cases "check d w")
  have same: "list_all2 (\<lambda>d d'. \<exists>h. d' = d\<lparr>Dependency.Healthy := h\<rparr>) ds ds"
    by (rule list_all2_refl) (metis Dependency.surjective Dependency.update_convs(2))
  show ?case
  proof (cases "\<not> h \<and> Level d = LevelHard")
    case True
    with c same show ?thesis by (auto simp: Let_def)
  next
    case False
    with c Cons.IH[of wa] show ?thesis by (auto simp: Let_def split: prod.splits)
  qed
qed

lemma same_names:
  "list_all2 (\<lambda>d d'. Dependency.Name d' = Dependency.Name d) xs ys \<Longrightarrow>
   map Dependency.Name ys = map Dependency.Name xs"
  by (induction rule: list_all2_induct) auto

lemma loop_names:
  "map Dependency.Name (fst (updateStatus_loop ds w)) = map Dependency.Name ds"
proof -
  have "list_all2 (\<lambda>d d'. Dependency.Name d' = Dependency.Name d) ds (fst (updateStatus_loop ds w))"
    by (rule list_all2_mono[OF loop_frame]) auto
  then show ?thesis by (rule same_names)
qed


lemma updateStatus_names:
  "map Dependency.Name (Dependencies (fst (updateStatus s w))) = map Dependency.Name (Dependencies s)"
  using loop_names[of "Dependencies s" w]
  by (cases "updateStatus_loop (Dependencies s) w") (auto simp: updateStatus_def)

lemma RegisterDependency_distinct:
  assumes "distinct (map Dependency.Name (Dependencies s))"
  shows "distinct (map Dependency.Name (Dependencies (fst (snd (RegisterDependency s name level chk w)))))"
proof (cases "name = [] \<or> name \<in> Dependency.Name ` set (Dependencies s)")
  case True
  then have "fst (snd (RegisterDependency s name level chk w)) = s"
    by (cases "name = []") (simp_all add: RegisterDependency_empty RegisterDependency_duplicate)
  with assms show ?thesis by simp
next
  case False
  with assms show ?thesis by (simp add: RegisterDependency_fresh)
qed

text \<open>
  C3. \<^verbatim>\<open>RegisterDependency\<close> returns an error exactly when the name is empty or already
  registered: \<^verbatim>\<open>ErrNoDependency\<close> for the empty name, \<^verbatim>\<open>ErrDependencyAlreadyRegistered\<close>
  for a name that is present. In both cases the service check and the world come back as
  they were, whatever the probe is, so the probe was not called and no record was added;
  in a registry whose names are distinct exactly one record has the colliding name, and
  registration keeps the names distinct.
\<close>

theorem RegisterDependency_rejects:
  "(fst (RegisterDependency s name level chk w) \<noteq> None
      \<longleftrightarrow> name = [] \<or> name \<in> Dependency.Name ` set (Dependencies s))
   \<and> (name = [] \<longrightarrow> RegisterDependency s name level chk w = (Some ErrNoDependency, s, w))
   \<and> (name \<noteq> [] \<and> name \<in> Dependency.Name ` set (Dependencies s) \<longrightarrow>
        RegisterDependency s name level chk w = (Some ErrDependencyAlreadyRegistered, s, w))
   \<and> (distinct (map Dependency.Name (Dependencies s))
        \<and> name \<in> Dependency.Name ` set (Dependencies s) \<longrightarrow>
        length (filter (\<lambda>d. Dependency.Name d = name)
          (Dependencies (fst (snd (RegisterDependency s name level chk w))))) = 1)
   \<and> (distinct (map Dependency.Name (Dependencies s)) \<longrightarrow>
        distinct (map Dependency.Name
          (Dependencies (fst (snd (RegisterDependency s name level chk w))))))"
proof (intro conjI impI)
  show "fst (RegisterDependency s name level chk w) \<noteq> None
      \<longleftrightarrow> name = [] \<or> name \<in> Dependency.Name ` set (Dependencies s)"
    by (cases "name = []"; cases "name \<in> Dependency.Name ` set (Dependencies s)")
       (simp_all add: RegisterDependency_empty RegisterDependency_duplicate RegisterDependency_fresh)
next
  assume "name = []"
  then show "RegisterDependency s name level chk w = (Some ErrNoDependency, s, w)"
    by (simp add: RegisterDependency_empty)
next
  assume "name \<noteq> [] \<and> name \<in> Dependency.Name ` set (Dependencies s)"
  then show "RegisterDependency s name level chk w = (Some ErrDependencyAlreadyRegistered, s, w)"
    by (simp add: RegisterDependency_duplicate)
next
  assume a: "distinct (map Dependency.Name (Dependencies s))
        \<and> name \<in> Dependency.Name ` set (Dependencies s)"
  then have "fst (snd (RegisterDependency s name level chk w)) = s"
    by (cases "name = []") (simp_all add: RegisterDependency_empty RegisterDependency_duplicate)
  with a show "length (filter (\<lambda>d. Dependency.Name d = name)
          (Dependencies (fst (snd (RegisterDependency s name level chk w))))) = 1"
    by (simp add: count_one_of_distinct)
next
  assume "distinct (map Dependency.Name (Dependencies s))"
  then show "distinct (map Dependency.Name
          (Dependencies (fst (snd (RegisterDependency s name level chk w)))))"
    by (rule RegisterDependency_distinct)
qed

theorem RegisterDependency_rejects_witness:
  "RegisterDependency (check_with [dep_soft_down, dep_hard_up]) [] LevelHard (probe_log 9 True) [5] =
     (Some ErrNoDependency, check_with [dep_soft_down, dep_hard_up], [5])
   \<and> ''google'' \<in> Dependency.Name ` set (Dependencies (check_with [dep_soft_down, dep_hard_up]))
   \<and> distinct (map Dependency.Name (Dependencies (check_with [dep_soft_down, dep_hard_up])))
   \<and> RegisterDependency (check_with [dep_soft_down, dep_hard_up]) ''google'' LevelHard (probe_log 9 True) [5] =
     (Some ErrDependencyAlreadyRegistered, check_with [dep_soft_down, dep_hard_up], [5])
   \<and> length (filter (\<lambda>d. Dependency.Name d = ''google'')
        (Dependencies (fst (snd (RegisterDependency (check_with [dep_soft_down, dep_hard_up])
           ''google'' LevelHard (probe_log 9 True) [5]))))) = 1
   \<and> distinct (map Dependency.Name (Dependencies (fst (snd (RegisterDependency
        (check_with [dep_soft_down, dep_hard_up]) ''redis'' LevelHard (probe_log 9 True) [5])))))"
proof -
  have a: "''google'' \<noteq> [] \<and> ''google'' \<in> Dependency.Name ` set (Dependencies (check_with [dep_soft_down, dep_hard_up]))"
    by (simp add: ex_defs)
  have b: "distinct (map Dependency.Name (Dependencies (check_with [dep_soft_down, dep_hard_up])))"
    by (simp add: ex_defs)
  from a b
    RegisterDependency_rejects [of "check_with [dep_soft_down, dep_hard_up]" "[]" LevelHard "probe_log 9 True" "[5]"]
    RegisterDependency_rejects [of "check_with [dep_soft_down, dep_hard_up]" "''google''" LevelHard "probe_log 9 True" "[5]"]
    RegisterDependency_rejects [of "check_with [dep_soft_down, dep_hard_up]" "''redis''" LevelHard "probe_log 9 True" "[5]"]
  show ?thesis by blast
qed

text \<open>
  C4. A registration that returns no error has called the probe once, on the world it was
  given (the world that comes back is the one this single call leaves), has stored the
  probe's answer as the new record's \<^verbatim>\<open>Healthy\<close>, and has put the new record after all the
  records that were there. A cycle of \<^verbatim>\<open>updateStatus\<close> keeps the records' names in their
  order, and a rejected registration keeps the whole service check, so the records stay in
  the order of their registration.
\<close>

theorem RegisterDependency_appends:
  "(fst (RegisterDependency s name level chk w) = None \<longrightarrow>
      RegisterDependency s name level chk w =
        (None,
         s\<lparr>Dependencies := Dependencies s @
             [\<lparr>Dependency.Name = name, Healthy = fst (chk w), Level = level, check = chk\<rparr>]\<rparr>,
         snd (chk w)))
   \<and> (fst (RegisterDependency s name level chk w) \<noteq> None \<longrightarrow>
        fst (snd (RegisterDependency s name level chk w)) = s)
   \<and> map Dependency.Name (Dependencies (fst (updateStatus t v))) = map Dependency.Name (Dependencies t)"
proof (intro conjI impI)
  assume ok: "fst (RegisterDependency s name level chk w) = None"
  have "name \<noteq> []"
    using ok by (auto simp: RegisterDependency_empty)
  moreover have "name \<notin> Dependency.Name ` set (Dependencies s)"
    using ok \<open>name \<noteq> []\<close> by (auto simp: RegisterDependency_duplicate)
  ultimately show "RegisterDependency s name level chk w =
        (None,
         s\<lparr>Dependencies := Dependencies s @
             [\<lparr>Dependency.Name = name, Healthy = fst (chk w), Level = level, check = chk\<rparr>]\<rparr>,
         snd (chk w))"
    by (rule RegisterDependency_fresh)
next
  assume "fst (RegisterDependency s name level chk w) \<noteq> None"
  then show "fst (snd (RegisterDependency s name level chk w)) = s"
    by (cases "name = []"; cases "name \<in> Dependency.Name ` set (Dependencies s)")
       (simp_all add: RegisterDependency_empty RegisterDependency_duplicate RegisterDependency_fresh)
next
  show "map Dependency.Name (Dependencies (fst (updateStatus t v))) = map Dependency.Name (Dependencies t)"
    by (rule updateStatus_names)
qed

theorem RegisterDependency_appends_witness:
  "fst (RegisterDependency (check_with [dep_soft_down]) ''google'' LevelHard (probe_log 2 True) [5]) = None
   \<and> RegisterDependency (check_with [dep_soft_down]) ''google'' LevelHard (probe_log 2 True) [5] =
       (None,
        check_with [dep_soft_down,
          \<lparr>Dependency.Name = ''google'', Healthy = True, Level = LevelHard, check = probe_log 2 True\<rparr>],
        [5, 2])
   \<and> fst (RegisterDependency (check_with [dep_soft_down]) ''search'' LevelHard (probe_log 2 True) [5]) \<noteq> None
   \<and> fst (snd (RegisterDependency (check_with [dep_soft_down]) ''search'' LevelHard (probe_log 2 True) [5]))
       = check_with [dep_soft_down]"
proof -
  have a: "fst (RegisterDependency (check_with [dep_soft_down]) ''google'' LevelHard (probe_log 2 True) [5]) = None"
    by (simp add: RegisterDependency_def ex_defs)
  have b: "fst (RegisterDependency (check_with [dep_soft_down]) ''search'' LevelHard (probe_log 2 True) [5]) \<noteq> None"
    by (simp add: RegisterDependency_def ex_defs)
  note google = RegisterDependency_appends
    [of "check_with [dep_soft_down]" "''google''" LevelHard "probe_log 2 True" "[5]" "check_with []" "[]"]
  note search = RegisterDependency_appends
    [of "check_with [dep_soft_down]" "''search''" LevelHard "probe_log 2 True" "[5]" "check_with []" "[]"]
  from a google have c:
    "RegisterDependency (check_with [dep_soft_down]) ''google'' LevelHard (probe_log 2 True) [5] =
       (None,
        check_with [dep_soft_down]\<lparr>Dependencies := Dependencies (check_with [dep_soft_down]) @
          [\<lparr>Dependency.Name = ''google'', Healthy = fst (probe_log 2 True [5]), Level = LevelHard,
             check = probe_log 2 True\<rparr>]\<rparr>,
        snd (probe_log 2 True [5]))"
    by blast
  from b search have d:
    "fst (snd (RegisterDependency (check_with [dep_soft_down]) ''search'' LevelHard (probe_log 2 True) [5]))
       = check_with [dep_soft_down]"
    by blast
  have e: "check_with [dep_soft_down]\<lparr>Dependencies := Dependencies (check_with [dep_soft_down]) @
          [\<lparr>Dependency.Name = ''google'', Healthy = fst (probe_log 2 True [5]), Level = LevelHard,
             check = probe_log 2 True\<rparr>]\<rparr> =
        check_with [dep_soft_down,
          \<lparr>Dependency.Name = ''google'', Healthy = True, Level = LevelHard, check = probe_log 2 True\<rparr>]"
    by (simp add: check_with_def probe_log_def)
  have f: "snd (probe_log 2 True [5]) = [5, 2]"
    by (simp add: probe_log_def)
  from a b c d e f show ?thesis by simp
qed


section \<open>The level is any 32-bit value\<close>

lemma loop_no_hard:
  "\<forall>d\<in>set ds. Level d \<noteq> LevelHard \<Longrightarrow> \<not> snd (snd (updateStatus_loop ds w))"
  by (rule loop_hard_ok) simp

lemma updateStatus_unhealthy_culprit:
  assumes "\<not> Healthy (fst (updateStatus s w))"
  shows "\<exists>d\<in>set (Dependencies (fst (updateStatus s w))). Level d = 1 \<and> \<not> Dependency.Healthy d"
proof -
  from assms have "snd (snd (updateStatus_loop (Dependencies s) w))"
    by (simp add: updateStatus_Healthy)
  then obtain ds' w' where l: "updateStatus_loop (Dependencies s) w = (ds', w', True)"
    by (cases "updateStatus_loop (Dependencies s) w") auto
  from loop_returned[OF l] obtain pre d post pre' where
    "Level d = LevelHard" "ds' = pre' @ d\<lparr>Dependency.Healthy := False\<rparr> # post" by blast
  then have "d\<lparr>Dependency.Healthy := False\<rparr> \<in> set ds'"
    "Level (d\<lparr>Dependency.Healthy := False\<rparr>) = 1"
    "\<not> Dependency.Healthy (d\<lparr>Dependency.Healthy := False\<rparr>)"
    by (simp_all add: LevelHard_def)
  moreover from l have "Dependencies (fst (updateStatus s w)) = ds'"
    by (simp add: updateStatus_def)
  ultimately show ?thesis by blast
qed

text \<open>
  C10. \<^verbatim>\<open>Level\<close> is the whole of uint32. \<^verbatim>\<open>RegisterDependency\<close> takes every level: with a
  fresh non-empty name it succeeds and records the level it was given. In a cycle only the
  value 1 counts as hard: when no record has level 1 the aggregate is true whatever the
  probes answer, and an aggregate that is false always comes with a record of level exactly
  1 whose probe has just answered false.
\<close>

theorem Level_is_open:
  "(name \<noteq> [] \<and> name \<notin> Dependency.Name ` set (Dependencies s) \<longrightarrow>
      fst (RegisterDependency s name level chk w) = None
      \<and> Level (last (Dependencies (fst (snd (RegisterDependency s name level chk w))))) = level)
   \<and> ((\<forall>d\<in>set (Dependencies s). Level d \<noteq> LevelHard) \<longrightarrow> Healthy (fst (updateStatus s w)))
   \<and> (\<not> Healthy (fst (updateStatus s w)) \<longrightarrow>
        (\<exists>d\<in>set (Dependencies (fst (updateStatus s w))). Level d = 1 \<and> \<not> Dependency.Healthy d))"
proof (intro conjI impI)
  assume a: "name \<noteq> [] \<and> name \<notin> Dependency.Name ` set (Dependencies s)"
  then show "fst (RegisterDependency s name level chk w) = None"
    by (simp add: RegisterDependency_fresh)
  from a show "Level (last (Dependencies (fst (snd (RegisterDependency s name level chk w))))) = level"
    by (simp add: RegisterDependency_fresh)
next
  assume "\<forall>d\<in>set (Dependencies s). Level d \<noteq> LevelHard"
  then show "Healthy (fst (updateStatus s w))"
    by (simp add: updateStatus_Healthy loop_no_hard)
next
  assume "\<not> Healthy (fst (updateStatus s w))"
  then show "\<exists>d\<in>set (Dependencies (fst (updateStatus s w))). Level d = 1 \<and> \<not> Dependency.Healthy d"
    by (rule updateStatus_unhealthy_culprit)
qed

theorem Level_is_open_witness:
  "fst (RegisterDependency (check_with []) ''mail'' 2 (probe_log 4 False) []) = None
   \<and> Level (last (Dependencies (fst (snd
         (RegisterDependency (check_with []) ''mail'' 2 (probe_log 4 False) []))))) = 2
   \<and> Level dep_level2_down = 2 \<and> (\<forall>v. \<not> fst (check dep_level2_down v))
   \<and> Healthy (fst (updateStatus (check_with [dep_level2_down]) []))
   \<and> \<not> Healthy (fst (updateStatus (check_with [dep_level2_down, dep_hard_down]) []))
   \<and> Dependencies (fst (updateStatus (check_with [dep_level2_down, dep_hard_down]) [])) =
       [dep_level2_down\<lparr>Dependency.Healthy := False\<rparr>, dep_hard_down\<lparr>Dependency.Healthy := False\<rparr>]
   \<and> (\<exists>d\<in>set (Dependencies (fst (updateStatus (check_with [dep_level2_down, dep_hard_down]) []))).
         Level d = 1 \<and> \<not> Dependency.Healthy d)"
proof -
  have a: "''mail'' \<noteq> [] \<and> ''mail'' \<notin> Dependency.Name ` set (Dependencies (check_with []))"
    by (simp add: check_with_def)
  have b: "\<forall>d\<in>set (Dependencies (check_with [dep_level2_down])). Level d \<noteq> LevelHard"
    by (simp add: ex_defs)
  have c: "Level dep_level2_down = 2 \<and> (\<forall>v. \<not> fst (check dep_level2_down v))"
    by (simp add: ex_defs)
  have d: "\<not> Healthy (fst (updateStatus (check_with [dep_level2_down, dep_hard_down]) []))"
    by (simp add: updateStatus_def ex_defs)
  have e: "Dependencies (fst (updateStatus (check_with [dep_level2_down, dep_hard_down]) [])) =
       [dep_level2_down\<lparr>Dependency.Healthy := False\<rparr>, dep_hard_down\<lparr>Dependency.Healthy := False\<rparr>]"
    by (simp add: updateStatus_def ex_defs)
  from a b c d e
    Level_is_open [of "''mail''" "check_with []" 2 "probe_log 4 False" "[]"]
    Level_is_open [of _ "check_with [dep_level2_down]" _ _ "[]"]
    Level_is_open [of _ "check_with [dep_level2_down, dep_hard_down]" _ _ "[]"]
  show ?thesis by blast
qed

section \<open>The initial aggregate\<close>

text \<open>
  C5. \<^verbatim>\<open>InitialiseServiceCheck\<close> as \<^verbatim>\<open>health.go\<close> has it, called with the name
  \<^verbatim>\<open>"test"\<close> and 50 milliseconds: the service check it returns has \<^verbatim>\<open>Healthy\<close> false.
\<close>

theorem InitialiseServiceCheck_starts_false:
  "(InitialiseServiceCheck ''test'' 50000000 :: error + nat list ServiceCheck) =
     Inr \<lparr>Name = ''test'', Healthy = False, Dependencies = [], duration = 50000000\<rparr>"
  by (simp add: InitialiseServiceCheck_def)

lemma InitialiseServiceCheck_variant_starts_true:
  "name \<noteq> [] \<Longrightarrow>
   \<exists>s. InitialiseServiceCheck_variant name dur = Inr s \<and> Healthy s \<and> Dependencies s = []"
  by (simp add: InitialiseServiceCheck_variant_def)

lemma InitialiseServiceCheck_first_cycle:
  "name \<noteq> [] \<Longrightarrow>
   \<exists>s. InitialiseServiceCheck name dur = Inr s \<and> \<not> Healthy s \<and> Healthy (fst (updateStatus s w))"
  by (simp add: InitialiseServiceCheck_def updateStatus_def)


section \<open>Properties of the status reporter\<close>

lemma HTTPHandler_recorder:
  "HTTPHandler s recorder calls =
     calls @ [HeaderWritten (if Healthy s then 200 else 503), BodyWritten (Encode_ServiceCheck s)]"
  by (simp add: HTTPHandler_def WriteStatus_def getHealth_def recorder_def)

lemma Encode_ServiceCheck_document:
  "Encode_ServiceCheck s =
     JObject [(''name'', JString (coerce_utf8 (Name s))),
              (''healthy'', JBool (Healthy s)),
              (''dependencies'',
                 (if Dependencies s = [] then JNull
                  else JArray (map (\<lambda>d. JObject [(''name'', JString (coerce_utf8 (Dependency.Name d))),
                                              (''healthy'', JBool (Dependency.Healthy d)),
                                              (''level'', JNumber (FormatUint (unat (Level d))))])
                                (Dependencies s))))]"
  by (cases "Dependencies s") (simp_all add: Encode_ServiceCheck_def Encode_Dependency_def)

text \<open>
  C7. The handler calls \<^verbatim>\<open>WriteHeader\<close> with 200 when the aggregate is true and with 503
  when it is false, and after that writes the serialized snapshot to the same writer,
  whatever the aggregate is. On the writer that keeps its calls, exactly these two calls
  are added, in this order, and the body is the snapshot written out: the object with the
  members \<^verbatim>\<open>name\<close>, \<^verbatim>\<open>healthy\<close> (the aggregate that chose the status code) and
  \<^verbatim>\<open>dependencies\<close>, the last being \<^verbatim>\<open>null\<close> for no records and otherwise the array of
  the records in order, each with its \<^verbatim>\<open>name\<close>, \<^verbatim>\<open>healthy\<close> and \<^verbatim>\<open>level\<close>.
\<close>

theorem HTTPHandler_status_then_body:
  "HTTPHandler s rw r =
     snd (Write rw (Encode_ServiceCheck s) (WriteHeader rw (if Healthy s then 200 else 503) r))
   \<and> HTTPHandler s recorder calls =
       calls @
       [HeaderWritten (if Healthy s then 200 else 503),
        BodyWritten
          (JObject [(''name'', JString (coerce_utf8 (Name s))),
                    (''healthy'', JBool (Healthy s)),
                    (''dependencies'',
                       (if Dependencies s = [] then JNull
                        else JArray (map (\<lambda>d. JObject
                                             [(''name'', JString (coerce_utf8 (Dependency.Name d))),
                                              (''healthy'', JBool (Dependency.Healthy d)),
                                              (''level'', JNumber (FormatUint (unat (Level d))))])
                                      (Dependencies s))))])]
   \<and> Encode_ServiceCheck s =
       JObject [(''name'', JString (coerce_utf8 (Name s))),
                (''healthy'', JBool (Healthy s)),
                (''dependencies'',
                   (if Dependencies s = [] then JNull
                    else JArray (map (\<lambda>d. JObject
                                         [(''name'', JString (coerce_utf8 (Dependency.Name d))),
                                          (''healthy'', JBool (Dependency.Healthy d)),
                                          (''level'', JNumber (FormatUint (unat (Level d))))])
                                  (Dependencies s))))]"
proof (intro conjI)
  show "HTTPHandler s rw r =
     snd (Write rw (Encode_ServiceCheck s) (WriteHeader rw (if Healthy s then 200 else 503) r))"
    by (simp add: HTTPHandler_def WriteStatus_def getHealth_def)
  show "HTTPHandler s recorder calls =
       calls @
       [HeaderWritten (if Healthy s then 200 else 503),
        BodyWritten
          (JObject [(''name'', JString (coerce_utf8 (Name s))),
                    (''healthy'', JBool (Healthy s)),
                    (''dependencies'',
                       (if Dependencies s = [] then JNull
                        else JArray (map (\<lambda>d. JObject
                                             [(''name'', JString (coerce_utf8 (Dependency.Name d))),
                                              (''healthy'', JBool (Dependency.Healthy d)),
                                              (''level'', JNumber (FormatUint (unat (Level d))))])
                                      (Dependencies s))))])]"
    using Encode_ServiceCheck_document [of s] by (simp add: HTTPHandler_recorder)
  show "Encode_ServiceCheck s =
       JObject [(''name'', JString (coerce_utf8 (Name s))),
                (''healthy'', JBool (Healthy s)),
                (''dependencies'',
                   (if Dependencies s = [] then JNull
                    else JArray (map (\<lambda>d. JObject
                                         [(''name'', JString (coerce_utf8 (Dependency.Name d))),
                                          (''healthy'', JBool (Dependency.Healthy d)),
                                          (''level'', JNumber (FormatUint (unat (Level d))))])
                                  (Dependencies s))))]"
    by (rule Encode_ServiceCheck_document)
qed

text \<open>
  The handler on three service checks, each after one cycle: one hard dependency that is
  down (503, and the body says so), one soft dependency that is down (200, the aggregate
  true in the body and the record false), and no dependency (200, \<^verbatim>\<open>null\<close> for the nil
  slice). The calls already received stay in front.
\<close>

theorem HTTPHandler_status_then_body_witness:
  "HTTPHandler (fst (updateStatus (check_with [dep_hard_down]) [])) recorder [] =
     [HeaderWritten 503,
      BodyWritten (JObject [(''name'', JString ''test''), (''healthy'', JBool False),
        (''dependencies'', JArray [JObject [(''name'', JString ''redis''),
           (''healthy'', JBool False), (''level'', JNumber ''1'')]])])]
   \<and> HTTPHandler (fst (updateStatus (check_with [dep_soft_down, dep_level2_down]) [])) recorder [] =
     [HeaderWritten 200,
      BodyWritten (JObject [(''name'', JString ''test''), (''healthy'', JBool True),
        (''dependencies'', JArray
           [JObject [(''name'', JString ''search''), (''healthy'', JBool False),
              (''level'', JNumber ''0'')],
            JObject [(''name'', JString ''mail''), (''healthy'', JBool False),
              (''level'', JNumber ''2'')]])])]
   \<and> HTTPHandler (fst (updateStatus (check_with []) [])) recorder [HeaderWritten 100] =
     [HeaderWritten 100, HeaderWritten 200,
      BodyWritten (JObject [(''name'', JString ''test''), (''healthy'', JBool True),
        (''dependencies'', JNull)])]"
proof -
  define down where "down = fst (updateStatus (check_with [dep_hard_down]) [])"
  define soft where "soft = fst (updateStatus (check_with [dep_soft_down, dep_level2_down]) [])"
  define none where "none = fst (updateStatus (check_with []) [])"
  have down: "Name down = ''test''" "\<not> Healthy down"
    "Dependencies down = [dep_hard_down\<lparr>Dependency.Healthy := False\<rparr>]"
    by (simp_all add: down_def updateStatus_def ex_defs)
  have soft: "Name soft = ''test''" "Healthy soft"
    "Dependencies soft = [dep_soft_down\<lparr>Dependency.Healthy := False\<rparr>,
                          dep_level2_down\<lparr>Dependency.Healthy := False\<rparr>]"
    by (simp_all add: soft_def updateStatus_def ex_defs)
  have none: "Name none = ''test''" "Healthy none" "Dependencies none = []"
    by (simp_all add: none_def updateStatus_def ex_defs)
  have names: "coerce_utf8 ''test'' = ''test''" "coerce_utf8 ''redis'' = ''redis''"
    "coerce_utf8 ''search'' = ''search''" "coerce_utf8 ''mail'' = ''mail''"
    by code_simp+
  have levels: "FormatUint (unat (Level dep_soft_down)) = ''0''"
    "FormatUint (unat (Level dep_hard_down)) = ''1''"
    "FormatUint (unat (Level dep_level2_down)) = ''2''"
    by code_simp+
  have fields: "Dependency.Name dep_soft_down = ''search''" "Dependency.Name dep_hard_down = ''redis''"
    "Dependency.Name dep_level2_down = ''mail''"
    by (simp_all add: ex_defs)
  note t = HTTPHandler_status_then_body
  from t [of down recorder "[]" "[]", THEN conjunct2, THEN conjunct1]
  have "HTTPHandler down recorder [] =
     [HeaderWritten 503,
      BodyWritten (JObject [(''name'', JString ''test''), (''healthy'', JBool False),
        (''dependencies'', JArray [JObject [(''name'', JString ''redis''),
           (''healthy'', JBool False), (''level'', JNumber ''1'')]])])]"
    by (simp add: down names levels fields)
  moreover from t [of soft recorder "[]" "[]", THEN conjunct2, THEN conjunct1]
  have "HTTPHandler soft recorder [] =
     [HeaderWritten 200,
      BodyWritten (JObject [(''name'', JString ''test''), (''healthy'', JBool True),
        (''dependencies'', JArray
           [JObject [(''name'', JString ''search''), (''healthy'', JBool False),
              (''level'', JNumber ''0'')],
            JObject [(''name'', JString ''mail''), (''healthy'', JBool False),
              (''level'', JNumber ''2'')]])])]"
    by (simp add: soft names levels fields)
  moreover from t [of none recorder "[]" "[HeaderWritten 100]", THEN conjunct2, THEN conjunct1]
  have "HTTPHandler none recorder [HeaderWritten 100] =
     [HeaderWritten 100, HeaderWritten 200,
      BodyWritten (JObject [(''name'', JString ''test''), (''healthy'', JBool True),
        (''dependencies'', JNull)])]"
    by (simp add: none names)
  ultimately show ?thesis
    unfolding down_def soft_def none_def by blast
qed

section \<open>Properties of decoding\<close>

lemma FormatUint_digits: "list_all is_digit (FormatUint n) \<and> FormatUint n \<noteq> []"
proof (induction n rule: FormatUint.induct)
  case (1 n)
  show ?case
  proof (cases "n < 10")
    case True
    then show ?thesis by (subst (1 2) FormatUint.simps) (simp add: is_digit_def)
  next
    case False
    with 1 have "list_all is_digit (FormatUint (n div 10))" by simp
    moreover have "is_digit (char_of (48 + n mod 10))"
      by (simp add: is_digit_def)
    ultimately show ?thesis using False by (subst (1 2) FormatUint.simps) simp
  qed
qed

lemma FormatUint_value: "foldl (\<lambda>n c. n * 10 + (of_char c - 48)) (0::nat) (FormatUint n) = n"
proof (induction n rule: FormatUint.induct)
  case (1 n)
  show ?case
  proof (cases "n < 10")
    case True
    then show ?thesis by (subst FormatUint.simps) simp
  next
    case False
    with 1 have "foldl (\<lambda>n c. n * 10 + (of_char c - 48)) (0::nat) (FormatUint (n div 10)) = n div 10"
      by simp
    then show ?thesis using False by (subst FormatUint.simps) simp
  qed
qed

lemma ParseUint32_FormatUint: "ParseUint32 (FormatUint (unat l)) = Some l"
proof -
  have "unat l < 2 ^ 32" using unsigned_less[of l] by simp
  then show ?thesis
    by (simp add: ParseUint32_def FormatUint_digits FormatUint_value)
qed

lemma coerce_utf8_examples:
  "coerce_utf8 ''redis'' = ''redis''"
  "coerce_utf8 [CHR ''a'', CHR 0xC3, CHR 0xA9] = [CHR ''a'', CHR 0xC3, CHR 0xA9]"
  "coerce_utf8 [CHR 0xFF, CHR ''a''] = [CHR 0xEF, CHR 0xBF, CHR 0xBD, CHR ''a'']"
  "coerce_utf8 [CHR 0xC3] = [CHR 0xEF, CHR 0xBF, CHR 0xBD]"
  by code_simp+

lemma foldName_tags:
  "foldName ''name'' = ''name''" "foldName ''healthy'' = ''healthy''"
  "foldName ''level'' = ''level''" "foldName ''dependencies'' = ''dependencies''"
  by code_simp+

lemma decode_Encode_Dependency:
  "decode_Dependency (Encode_Dependency d) =
     (None, Some \<lparr>Dependency_exported.Name = coerce_utf8 (Dependency.Name d), Healthy = Dependency.Healthy d,
                   Level = Level d\<rparr>)"
  by (simp del: foldName.simps add: decode_Dependency_def Encode_Dependency_def decode_Dependency_member_def
      foldName_tags decode_string_def decode_bool_def decode_uint32_def ParseUint32_FormatUint
      first_error_def Dependency_zero_def)

lemma first_error_all_None:
  "\<forall>e\<in>set es. e = None \<Longrightarrow> foldl first_error None es = None"
  by (induction es) (simp_all add: first_error_def)

lemma decode_Encode_Dependencies:
  "decode_Dependencies (JArray (map Encode_Dependency ds)) cur =
     (None, map (\<lambda>d. Some \<lparr>Dependency_exported.Name = coerce_utf8 (Dependency.Name d),
                            Healthy = Dependency.Healthy d, Level = Level d\<rparr>) ds)"
  by (simp add: decode_Dependencies_def decode_Encode_Dependency o_def first_error_all_None)

lemma decode_Encode_ServiceCheck:
  "decode_ServiceCheck (Encode_ServiceCheck s) ServiceCheck_zero =
     (None, \<lparr>ServiceCheck_exported.Name = coerce_utf8 (Name s), Healthy = Healthy s,
             Dependencies = map (\<lambda>d. Some \<lparr>Dependency_exported.Name = coerce_utf8 (Dependency.Name d),
                            Healthy = Dependency.Healthy d, Level = Level d\<rparr>) (Dependencies s)\<rparr>)"
proof (cases "Dependencies s")
  case Nil
  then show ?thesis
    by (simp del: foldName.simps add: decode_ServiceCheck_def Encode_ServiceCheck_def decode_ServiceCheck_member_def
      foldName_tags decode_string_def decode_bool_def decode_Dependencies_def
      first_error_def ServiceCheck_zero_def)
next
  case (Cons d ds)
  have "decode_Dependencies (JArray (map Encode_Dependency (Dependencies s))) [] =
     (None, map (\<lambda>d. Some \<lparr>Dependency_exported.Name = coerce_utf8 (Dependency.Name d),
                            Healthy = Dependency.Healthy d, Level = Level d\<rparr>) (Dependencies s))"
    by (rule decode_Encode_Dependencies)
  with Cons show ?thesis
    by (simp del: foldName.simps add: decode_ServiceCheck_def Encode_ServiceCheck_def decode_ServiceCheck_member_def
      foldName_tags decode_string_def decode_bool_def
      first_error_def ServiceCheck_zero_def)
qed


text \<open>
  C9. Decoding the document that \<^verbatim>\<open>WriteStatus\<close> writes for a service check, into a zero
  \<^verbatim>\<open>ServiceCheck\<close> as \<^verbatim>\<open>Get\<close> does, succeeds and gives back the aggregate \<^verbatim>\<open>Healthy\<close> (and
  the name and each record's name, health and level). So \<^verbatim>\<open>Get\<close>, answered with what the
  handler of a service check wrote (the status code and the body), returns that service
  check's aggregate and no error.
\<close>

theorem snapshot_round_trip:
  "WriteStatus s (Write recorder) [] = (None, [BodyWritten (Encode_ServiceCheck s)])
   \<and> Decode (Some (Encode_ServiceCheck s)) ServiceCheck_zero =
       (None, \<lparr>ServiceCheck_exported.Name = coerce_utf8 (Name s), Healthy = Healthy s,
               Dependencies = map (\<lambda>d. Some \<lparr>Dependency_exported.Name = coerce_utf8 (Dependency.Name d),
                  Healthy = Dependency.Healthy d, Level = Level d\<rparr>) (Dependencies s)\<rparr>)
   \<and> ServiceCheck_exported.Healthy (snd (Decode (Some (Encode_ServiceCheck s)) ServiceCheck_zero))
       = Healthy s
   \<and> (NewRequest n ''GET'' url = Inr req
        \<and> HTTPHandler s recorder [] = [HeaderWritten code, BodyWritten doc]
        \<and> Do n req = Inr \<lparr>StatusCode = code, Body = Some doc\<rparr>
        \<longrightarrow> Get n url = (Healthy s, None))"
proof (intro conjI impI)
  show "WriteStatus s (Write recorder) [] = (None, [BodyWritten (Encode_ServiceCheck s)])"
    by (simp add: WriteStatus_def recorder_def)
  show d: "Decode (Some (Encode_ServiceCheck s)) ServiceCheck_zero =
       (None, \<lparr>ServiceCheck_exported.Name = coerce_utf8 (Name s), Healthy = Healthy s,
               Dependencies = map (\<lambda>d. Some \<lparr>Dependency_exported.Name = coerce_utf8 (Dependency.Name d),
                  Healthy = Dependency.Healthy d, Level = Level d\<rparr>) (Dependencies s)\<rparr>)"
    by (simp add: Decode_def decode_Encode_ServiceCheck)
  then show "ServiceCheck_exported.Healthy (snd (Decode (Some (Encode_ServiceCheck s)) ServiceCheck_zero))
       = Healthy s"
    by simp
  assume a: "NewRequest n ''GET'' url = Inr req
        \<and> HTTPHandler s recorder [] = [HeaderWritten code, BodyWritten doc]
        \<and> Do n req = Inr \<lparr>StatusCode = code, Body = Some doc\<rparr>"
  then have "code = (if Healthy s then 200 else 503)" "doc = Encode_ServiceCheck s"
    by (simp_all add: HTTPHandler_recorder)
  with a d show "Get n url = (Healthy s, None)"
    by (simp add: Get_def StatusOK_def)
qed

theorem snapshot_round_trip_witness:
  "NewRequest (net_serving \<lparr>StatusCode = 503, Body = Some (Encode_ServiceCheck
        (fst (updateStatus (check_with [dep_soft_down, dep_hard_down]) [])))\<rparr>) ''GET'' ''http://svc/health''
      = Inr (''GET'', ''http://svc/health'')
   \<and> HTTPHandler (fst (updateStatus (check_with [dep_soft_down, dep_hard_down]) [])) recorder [] =
       [HeaderWritten 503,
        BodyWritten (Encode_ServiceCheck (fst (updateStatus (check_with [dep_soft_down, dep_hard_down]) [])))]
   \<and> Get (net_serving \<lparr>StatusCode = 503, Body = Some (Encode_ServiceCheck
        (fst (updateStatus (check_with [dep_soft_down, dep_hard_down]) [])))\<rparr>) ''http://svc/health''
      = (False, None)
   \<and> Get (net_serving \<lparr>StatusCode = 200, Body = Some (Encode_ServiceCheck
        (fst (updateStatus (check_with [dep_soft_down, dep_hard_up]) [])))\<rparr>) ''http://svc/health''
      = (True, None)"
proof -
  let ?down = "fst (updateStatus (check_with [dep_soft_down, dep_hard_down]) [])"
  let ?up = "fst (updateStatus (check_with [dep_soft_down, dep_hard_up]) [])"
  have hd: "\<not> Healthy ?down" by (simp add: updateStatus_def ex_defs)
  have hu: "Healthy ?up" by (simp add: updateStatus_def ex_defs)
  have r: "\<And>resp. NewRequest (net_serving resp) ''GET'' ''http://svc/health'' = Inr (''GET'', ''http://svc/health'')"
    by (simp add: net_serving_def)
  have o: "\<And>resp. Do (net_serving resp) (''GET'', ''http://svc/health'') = Inr resp"
    by (simp add: net_serving_def)
  have wd: "HTTPHandler ?down recorder [] = [HeaderWritten 503, BodyWritten (Encode_ServiceCheck ?down)]"
    using hd by (simp add: HTTPHandler_recorder)
  have wu: "HTTPHandler ?up recorder [] = [HeaderWritten 200, BodyWritten (Encode_ServiceCheck ?up)]"
    using hu by (simp add: HTTPHandler_recorder)
  from snapshot_round_trip [of ?down "net_serving \<lparr>StatusCode = 503, Body = Some (Encode_ServiceCheck ?down)\<rparr>"
      "''http://svc/health''" "(''GET'', ''http://svc/health'')" 503 "Encode_ServiceCheck ?down"] r o wd hd
  have gd: "Get (net_serving \<lparr>StatusCode = 503, Body = Some (Encode_ServiceCheck ?down)\<rparr>) ''http://svc/health''
      = (False, None)" by simp
  from snapshot_round_trip [of ?up "net_serving \<lparr>StatusCode = 200, Body = Some (Encode_ServiceCheck ?up)\<rparr>"
      "''http://svc/health''" "(''GET'', ''http://svc/health'')" 200 "Encode_ServiceCheck ?up"] r o wu hu
  have gu: "Get (net_serving \<lparr>StatusCode = 200, Body = Some (Encode_ServiceCheck ?up)\<rparr>) ''http://svc/health''
      = (True, None)" by simp
  from r wd gd gu show ?thesis by simp
qed


section \<open>Properties of the remote health check helpers\<close>

lemma Check200Helper_parse_error:
  "ParseRequestURI n rawURL = Inl err \<Longrightarrow> Check200Helper n rawURL = (False, Some err)"
  by (simp add: Check200Helper_def)

lemma Check200Helper_request_error:
  "ParseRequestURI n rawURL = Inr u \<Longrightarrow> NewRequest n ''GET'' (URL_String n u) = Inl err \<Longrightarrow>
   Check200Helper n rawURL = (False, Some err)"
  by (simp add: Check200Helper_def)

lemma Check200Helper_transport_error:
  "ParseRequestURI n rawURL = Inr u \<Longrightarrow> NewRequest n ''GET'' (URL_String n u) = Inr req \<Longrightarrow>
   Do n req = Inl err \<Longrightarrow> Check200Helper n rawURL = (False, Some err)"
  by (simp add: Check200Helper_def)

lemma Check200Helper_response:
  "ParseRequestURI n rawURL = Inr u \<Longrightarrow> NewRequest n ''GET'' (URL_String n u) = Inr req \<Longrightarrow>
   Do n req = Inr resp \<Longrightarrow> Check200Helper n rawURL = (StatusCode resp = 200, None)"
  by (simp add: Check200Helper_def StatusOK_def)

lemma Get_request_error:
  "NewRequest n ''GET'' url = Inl err \<Longrightarrow> Get n url = (False, Some err)"
  by (simp add: Get_def)

lemma Get_transport_error:
  "NewRequest n ''GET'' url = Inr req \<Longrightarrow> Do n req = Inl err \<Longrightarrow> Get n url = (False, Some err)"
  by (simp add: Get_def)

lemma Get_not_OK:
  "NewRequest n ''GET'' url = Inr req \<Longrightarrow> Do n req = Inr resp \<Longrightarrow> StatusCode resp \<noteq> 200 \<Longrightarrow>
   Get n url = (False, None)"
  by (simp add: Get_def StatusOK_def)

lemma Get_decode_error:
  "NewRequest n ''GET'' url = Inr req \<Longrightarrow> Do n req = Inr resp \<Longrightarrow> StatusCode resp = 200 \<Longrightarrow>
   Decode (Body resp) ServiceCheck_zero = (Some err, v) \<Longrightarrow> Get n url = (False, Some err)"
  by (simp add: Get_def StatusOK_def)

lemma Get_decoded:
  "NewRequest n ''GET'' url = Inr req \<Longrightarrow> Do n req = Inr resp \<Longrightarrow> StatusCode resp = 200 \<Longrightarrow>
   Decode (Body resp) ServiceCheck_zero = (None, v) \<Longrightarrow>
   Get n url = (ServiceCheck_exported.Healthy v, None)"
  by (simp add: Get_def StatusOK_def)

text \<open>
  C8. \<^verbatim>\<open>Check200Helper\<close> returns true only when the client returned a response whose status
  is 200; whenever the client returns a response, the helper returns whether the status
  is 200 and no error; and an error it returns is the error of \<^verbatim>\<open>ParseRequestURI\<close>, of
  \<^verbatim>\<open>NewRequest\<close> or of the client. \<^verbatim>\<open>Get\<close> returns true only when the response has status
  200 and its body decodes to a snapshot whose \<^verbatim>\<open>Healthy\<close> is true; on a response with
  another status it returns false and no error; on a 200 response that decodes it returns
  the decoded \<^verbatim>\<open>Healthy\<close>; and an error it returns is the error of \<^verbatim>\<open>NewRequest\<close>, of the
  client, or of decoding the body of a 200 response.
\<close>

theorem remote_helpers:
  "(fst (Check200Helper n rawURL) \<longrightarrow>
      (\<exists>u req resp. ParseRequestURI n rawURL = Inr u \<and> NewRequest n ''GET'' (URL_String n u) = Inr req
         \<and> Do n req = Inr resp \<and> StatusCode resp = 200))
   \<and> (ParseRequestURI n rawURL = Inr u \<and> NewRequest n ''GET'' (URL_String n u) = Inr req
        \<and> Do n req = Inr resp \<longrightarrow> Check200Helper n rawURL = (StatusCode resp = 200, None))
   \<and> (snd (Check200Helper n rawURL) = Some e \<longrightarrow>
        ParseRequestURI n rawURL = Inl e
        \<or> (\<exists>u. ParseRequestURI n rawURL = Inr u \<and> NewRequest n ''GET'' (URL_String n u) = Inl e)
        \<or> (\<exists>u req. ParseRequestURI n rawURL = Inr u \<and> NewRequest n ''GET'' (URL_String n u) = Inr req
              \<and> Do n req = Inl e))
   \<and> (fst (Get n url) \<longrightarrow>
        (\<exists>req resp v. NewRequest n ''GET'' url = Inr req \<and> Do n req = Inr resp \<and> StatusCode resp = 200
           \<and> Decode (Body resp) ServiceCheck_zero = (None, v) \<and> ServiceCheck_exported.Healthy v))
   \<and> (NewRequest n ''GET'' url = Inr req' \<and> Do n req' = Inr resp' \<and> StatusCode resp' \<noteq> 200
        \<longrightarrow> Get n url = (False, None))
   \<and> (NewRequest n ''GET'' url = Inr req' \<and> Do n req' = Inr resp' \<and> StatusCode resp' = 200
        \<and> Decode (Body resp') ServiceCheck_zero = (None, v')
        \<longrightarrow> Get n url = (ServiceCheck_exported.Healthy v', None))
   \<and> (snd (Get n url) = Some e' \<longrightarrow>
        NewRequest n ''GET'' url = Inl e'
        \<or> (\<exists>req. NewRequest n ''GET'' url = Inr req \<and> Do n req = Inl e')
        \<or> (\<exists>req resp. NewRequest n ''GET'' url = Inr req \<and> Do n req = Inr resp
              \<and> StatusCode resp = 200 \<and> fst (Decode (Body resp) ServiceCheck_zero) = Some e'))"
proof (intro conjI impI)
  assume t: "fst (Check200Helper n rawURL)"
  show "\<exists>u req resp. ParseRequestURI n rawURL = Inr u \<and> NewRequest n ''GET'' (URL_String n u) = Inr req
         \<and> Do n req = Inr resp \<and> StatusCode resp = 200"
  proof (cases "ParseRequestURI n rawURL")
    case (Inl err)
    with t show ?thesis by (simp add: Check200Helper_parse_error)
  next
    case (Inr u)
    note p = this
    show ?thesis
    proof (cases "NewRequest n ''GET'' (URL_String n u)")
      case (Inl err)
      with t p show ?thesis by (simp add: Check200Helper_request_error)
    next
      case (Inr req)
      note q = this
      show ?thesis
      proof (cases "Do n req")
        case (Inl err)
        with t p q show ?thesis by (simp add: Check200Helper_transport_error)
      next
        case (Inr resp)
        with t p q have "StatusCode resp = 200" by (simp add: Check200Helper_response)
        with p q Inr show ?thesis by blast
      qed
    qed
  qed
next
  assume "ParseRequestURI n rawURL = Inr u \<and> NewRequest n ''GET'' (URL_String n u) = Inr req
        \<and> Do n req = Inr resp"
  then show "Check200Helper n rawURL = (StatusCode resp = 200, None)"
    by (simp add: Check200Helper_response)
next
  assume e: "snd (Check200Helper n rawURL) = Some e"
  show "ParseRequestURI n rawURL = Inl e
        \<or> (\<exists>u. ParseRequestURI n rawURL = Inr u \<and> NewRequest n ''GET'' (URL_String n u) = Inl e)
        \<or> (\<exists>u req. ParseRequestURI n rawURL = Inr u \<and> NewRequest n ''GET'' (URL_String n u) = Inr req
              \<and> Do n req = Inl e)"
  proof (cases "ParseRequestURI n rawURL")
    case (Inl err)
    with e show ?thesis by (simp add: Check200Helper_parse_error)
  next
    case (Inr u)
    note p = this
    show ?thesis
    proof (cases "NewRequest n ''GET'' (URL_String n u)")
      case (Inl err)
      with e p show ?thesis by (simp add: Check200Helper_request_error)
    next
      case (Inr req)
      note q = this
      show ?thesis
      proof (cases "Do n req")
        case (Inl err)
        with e p q show ?thesis by (simp add: Check200Helper_transport_error)
      next
        case (Inr resp)
        with e p q show ?thesis by (simp add: Check200Helper_response)
      qed
    qed
  qed
next
  assume t: "fst (Get n url)"
  show "\<exists>req resp v. NewRequest n ''GET'' url = Inr req \<and> Do n req = Inr resp \<and> StatusCode resp = 200
           \<and> Decode (Body resp) ServiceCheck_zero = (None, v) \<and> ServiceCheck_exported.Healthy v"
  proof (cases "NewRequest n ''GET'' url")
    case (Inl err)
    with t show ?thesis by (simp add: Get_request_error)
  next
    case (Inr req)
    note q = this
    show ?thesis
    proof (cases "Do n req")
      case (Inl err)
      with t q show ?thesis by (simp add: Get_transport_error)
    next
      case (Inr resp)
      note r = this
      show ?thesis
      proof (cases "StatusCode resp = 200")
        case False
        with t q r show ?thesis by (simp add: Get_not_OK)
      next
        case True
        obtain err v where d: "Decode (Body resp) ServiceCheck_zero = (err, v)"
          by (cases "Decode (Body resp) ServiceCheck_zero")
        show ?thesis
        proof (cases err)
          case None
          with t q r True d have "ServiceCheck_exported.Healthy v" by (simp add: Get_decoded)
          with q r True d None show ?thesis by blast
        next
          case (Some x)
          with t q r True d show ?thesis by (simp add: Get_decode_error)
        qed
      qed
    qed
  qed
next
  assume "NewRequest n ''GET'' url = Inr req' \<and> Do n req' = Inr resp' \<and> StatusCode resp' \<noteq> 200"
  then show "Get n url = (False, None)" by (simp add: Get_not_OK)
next
  assume "NewRequest n ''GET'' url = Inr req' \<and> Do n req' = Inr resp' \<and> StatusCode resp' = 200
        \<and> Decode (Body resp') ServiceCheck_zero = (None, v')"
  then show "Get n url = (ServiceCheck_exported.Healthy v', None)" by (simp add: Get_decoded)
next
  assume e: "snd (Get n url) = Some e'"
  show "NewRequest n ''GET'' url = Inl e'
        \<or> (\<exists>req. NewRequest n ''GET'' url = Inr req \<and> Do n req = Inl e')
        \<or> (\<exists>req resp. NewRequest n ''GET'' url = Inr req \<and> Do n req = Inr resp
              \<and> StatusCode resp = 200 \<and> fst (Decode (Body resp) ServiceCheck_zero) = Some e')"
  proof (cases "NewRequest n ''GET'' url")
    case (Inl err)
    with e show ?thesis by (simp add: Get_request_error)
  next
    case (Inr req)
    note q = this
    show ?thesis
    proof (cases "Do n req")
      case (Inl err)
      with e q show ?thesis by (simp add: Get_transport_error)
    next
      case (Inr resp)
      note r = this
      show ?thesis
      proof (cases "StatusCode resp = 200")
        case False
        with e q r show ?thesis by (simp add: Get_not_OK)
      next
        case True
        obtain err v where d: "Decode (Body resp) ServiceCheck_zero = (err, v)"
          by (cases "Decode (Body resp) ServiceCheck_zero")
        show ?thesis
        proof (cases err)
          case None
          with e q r True d show ?thesis by (simp add: Get_decoded)
        next
          case (Some x)
          with e q r True d have "x = e'" by (simp add: Get_decode_error)
          with q r True d Some show ?thesis by simp
        qed
      qed
    qed
  qed
qed


theorem remote_helpers_witness:
  "Check200Helper (net_serving \<lparr>StatusCode = 200, Body = None\<rparr>) ''http://svc/health'' = (True, None)
   \<and> Check200Helper (net_serving \<lparr>StatusCode = 500, Body = None\<rparr>) ''http://svc/health'' = (False, None)
   \<and> Check200Helper (net_serving \<lparr>StatusCode = 200, Body = None\<rparr>) [] =
       (False, Some (External ''empty url''))
   \<and> Check200Helper (net_serving \<lparr>StatusCode = 200, Body = None\<rparr>) ''http://down/'' =
       (False, Some (External ''connection refused''))
   \<and> Get (net_serving \<lparr>StatusCode = 500, Body = Some (JObject [(''healthy'', JBool True)])\<rparr>)
         ''http://svc/health'' = (False, None)
   \<and> Get (net_serving \<lparr>StatusCode = 200, Body = Some (JObject [(''healthy'', JBool True)])\<rparr>)
         ''http://svc/health'' = (True, None)
   \<and> Get (net_serving \<lparr>StatusCode = 200, Body = None\<rparr>) ''http://svc/health'' =
       (False, Some SyntaxError)
   \<and> Get (net_serving \<lparr>StatusCode = 200, Body = Some (JObject [(''Healthy'', JString ''yes'')])\<rparr>)
         ''http://svc/health'' = (False, Some UnmarshalTypeError)
   \<and> Get (net_serving \<lparr>StatusCode = 200, Body = None\<rparr>) ''http://down/'' =
       (False, Some (External ''connection refused''))
   \<and> (\<exists>u req resp.
         ParseRequestURI (net_serving \<lparr>StatusCode = 200, Body = None\<rparr>) ''http://svc/health'' = Inr u
         \<and> NewRequest (net_serving \<lparr>StatusCode = 200, Body = None\<rparr>) ''GET''
              (URL_String (net_serving \<lparr>StatusCode = 200, Body = None\<rparr>) u) = Inr req
         \<and> Do (net_serving \<lparr>StatusCode = 200, Body = None\<rparr>) req = Inr resp \<and> StatusCode resp = 200)
   \<and> (\<exists>req resp v.
         NewRequest (net_serving \<lparr>StatusCode = 200, Body = Some (JObject [(''healthy'', JBool True)])\<rparr>)
           ''GET'' ''http://svc/health'' = Inr req
         \<and> Do (net_serving \<lparr>StatusCode = 200, Body = Some (JObject [(''healthy'', JBool True)])\<rparr>) req
             = Inr resp
         \<and> StatusCode resp = 200 \<and> Decode (Body resp) ServiceCheck_zero = (None, v)
         \<and> ServiceCheck_exported.Healthy v)"
proof -
  let ?url = "''http://svc/health''"
  have p: "\<And>resp. ParseRequestURI (net_serving resp) ?url = Inr ?url"
    by (simp add: net_serving_def)
  have q: "\<And>resp. NewRequest (net_serving resp) ''GET'' (URL_String (net_serving resp) ?url) = Inr (''GET'', ?url)"
    by (simp add: net_serving_def)
  have q': "\<And>resp. NewRequest (net_serving resp) ''GET'' ?url = Inr (''GET'', ?url)"
    by (simp add: net_serving_def)
  have r: "\<And>resp. Do (net_serving resp) (''GET'', ?url) = Inr resp"
    by (simp add: net_serving_def)
  have d: "Decode (Body \<lparr>StatusCode = 200, Body = Some (JObject [(''healthy'', JBool True)])\<rparr>)
             ServiceCheck_zero =
           (None, \<lparr>ServiceCheck_exported.Name = [], Healthy = True, Dependencies = []\<rparr>)"
    by (simp del: foldName.simps add: Decode_def decode_ServiceCheck_def decode_ServiceCheck_member_def
        foldName_tags decode_bool_def first_error_def ServiceCheck_zero_def)
  have c1: "Check200Helper (net_serving \<lparr>StatusCode = 200, Body = None\<rparr>) ?url = (True, None)"
    using remote_helpers [where n = "net_serving \<lparr>StatusCode = 200, Body = None\<rparr>"
        and rawURL = ?url and u = ?url and req = "(''GET'', ?url)"
        and resp = "\<lparr>StatusCode = 200, Body = None\<rparr>"] p q r
    by simp
  have c2: "Check200Helper (net_serving \<lparr>StatusCode = 500, Body = None\<rparr>) ?url = (False, None)"
    using remote_helpers [where n = "net_serving \<lparr>StatusCode = 500, Body = None\<rparr>"
        and rawURL = ?url and u = ?url and req = "(''GET'', ?url)"
        and resp = "\<lparr>StatusCode = 500, Body = None\<rparr>"] p q r
    by simp
  have c3: "Check200Helper (net_serving \<lparr>StatusCode = 200, Body = None\<rparr>) [] =
       (False, Some (External ''empty url''))"
    by (simp add: Check200Helper_def net_serving_def)
  have c4: "Check200Helper (net_serving \<lparr>StatusCode = 200, Body = None\<rparr>) ''http://down/'' =
       (False, Some (External ''connection refused''))"
    by (simp add: Check200Helper_def net_serving_def)
  have g1: "Get (net_serving \<lparr>StatusCode = 500, Body = Some (JObject [(''healthy'', JBool True)])\<rparr>)
         ?url = (False, None)"
    using remote_helpers [where n = "net_serving \<lparr>StatusCode = 500, Body = Some (JObject [(''healthy'', JBool True)])\<rparr>"
        and url = ?url and req' = "(''GET'', ?url)"
        and resp' = "\<lparr>StatusCode = 500, Body = Some (JObject [(''healthy'', JBool True)])\<rparr>"] q' r
    by simp
  have g2: "Get (net_serving \<lparr>StatusCode = 200, Body = Some (JObject [(''healthy'', JBool True)])\<rparr>)
         ?url = (True, None)"
    using remote_helpers [where n = "net_serving \<lparr>StatusCode = 200, Body = Some (JObject [(''healthy'', JBool True)])\<rparr>"
        and url = ?url and req' = "(''GET'', ?url)"
        and resp' = "\<lparr>StatusCode = 200, Body = Some (JObject [(''healthy'', JBool True)])\<rparr>"
        and v' = "\<lparr>ServiceCheck_exported.Name = [], Healthy = True, Dependencies = []\<rparr>"] q' r d
    by simp
  have g3: "Get (net_serving \<lparr>StatusCode = 200, Body = None\<rparr>) ?url = (False, Some SyntaxError)"
    by (simp add: Get_def net_serving_def StatusOK_def Decode_def)
  have k: "foldName ''Healthy'' = ''healthy''" by code_simp
  have g4: "Get (net_serving \<lparr>StatusCode = 200, Body = Some (JObject [(''Healthy'', JString ''yes'')])\<rparr>)
         ?url = (False, Some UnmarshalTypeError)"
    by (simp del: foldName.simps add: Get_def net_serving_def StatusOK_def Decode_def
        decode_ServiceCheck_def decode_ServiceCheck_member_def k decode_bool_def first_error_def
        ServiceCheck_zero_def)
  have g5: "Get (net_serving \<lparr>StatusCode = 200, Body = None\<rparr>) ''http://down/'' =
       (False, Some (External ''connection refused''))"
    by (simp add: Get_def net_serving_def)
  have t1: "fst (Check200Helper (net_serving \<lparr>StatusCode = 200, Body = None\<rparr>) ?url)"
    using c1 by simp
  from t1 remote_helpers [where n = "net_serving \<lparr>StatusCode = 200, Body = None\<rparr>" and rawURL = ?url]
  have x1: "\<exists>u req resp.
         ParseRequestURI (net_serving \<lparr>StatusCode = 200, Body = None\<rparr>) ?url = Inr u
         \<and> NewRequest (net_serving \<lparr>StatusCode = 200, Body = None\<rparr>) ''GET''
              (URL_String (net_serving \<lparr>StatusCode = 200, Body = None\<rparr>) u) = Inr req
         \<and> Do (net_serving \<lparr>StatusCode = 200, Body = None\<rparr>) req = Inr resp \<and> StatusCode resp = 200"
    by blast
  have t2: "fst (Get (net_serving \<lparr>StatusCode = 200, Body = Some (JObject [(''healthy'', JBool True)])\<rparr>) ?url)"
    using g2 by simp
  from t2 remote_helpers [where n = "net_serving \<lparr>StatusCode = 200, Body = Some (JObject [(''healthy'', JBool True)])\<rparr>"
      and url = ?url]
  have x2: "\<exists>req resp v.
         NewRequest (net_serving \<lparr>StatusCode = 200, Body = Some (JObject [(''healthy'', JBool True)])\<rparr>)
           ''GET'' ?url = Inr req
         \<and> Do (net_serving \<lparr>StatusCode = 200, Body = Some (JObject [(''healthy'', JBool True)])\<rparr>) req
             = Inr resp
         \<and> StatusCode resp = 200 \<and> Decode (Body resp) ServiceCheck_zero = (None, v)
         \<and> ServiceCheck_exported.Healthy v"
    by blast
  from c1 c2 c3 c4 g1 g2 g3 g4 g5 x1 x2 show ?thesis by blast
qed

end
